theory Spec2Isabelle
  imports Main
begin

section \<open>JavaScript values\<close>

text \<open>
  The program is dynamically typed: a cached record is whatever \<^verbatim>\<open>JSON.parse\<close> returned for
  the cache file, a token is whatever stands in the field \<^verbatim>\<open>jwt\<close>. The model therefore
  works on one universe of values. Numbers are the integers (the instants and expiry
  claims of the program are integers far inside the range where IEEE doubles are exact),
  together with \<^verbatim>\<open>NaN\<close>, which arithmetic on a non-numeric value produces. Strings are
  lists of 8-bit characters (tokens are ASCII).
\<close>

datatype jsval =
    JUndefined
  | JNull
  | JBool bool
  | JNum int
  | JNaN
  | JStr string
  | JArr "jsval list"
  | JObj "(string \<times> jsval) list"

text \<open>
  Every function of the source can throw; a function of the model returns
  \<open>js_error + 'a\<close>, with \<open>Inl\<close> the exception thrown and \<open>Inr\<close> the value returned.
\<close>

datatype js_error =
    TypeError | SyntaxError | ENOENT | ENOTDIR | EACCES | ENOSPC | HttpError | NetworkError

text \<open>Sequencing: an exception of the first step is the exception of the whole.\<close>

definition and_then :: "js_error + 'a \<Rightarrow> ('a \<Rightarrow> js_error + 'b) \<Rightarrow> js_error + 'b" where
  "and_then r f = (case r of Inl e \<Rightarrow> Inl e | Inr v \<Rightarrow> f v)"

text \<open>\<^verbatim>\<open>try { ... } catch (error) { return d; }\<close> around a block with result \<open>r\<close>.\<close>

definition catch_all :: "js_error + 'a \<Rightarrow> 'a \<Rightarrow> js_error + 'a" where
  "catch_all r d = (case r of Inl e \<Rightarrow> Inr d | Inr v \<Rightarrow> Inr v)"

text \<open>
  The library functions of the runtime that the source calls and that are no part of the
  repository. \<open>base64_utf8 s\<close> is \<^verbatim>\<open>Buffer.from(s, "base64").toString("utf8")\<close> (it never
  throws), \<open>JSON_parse s\<close> is \<open>None\<close> where \<^verbatim>\<open>JSON.parse(s)\<close> throws a SyntaxError,
  \<open>JSON_stringify v\<close> is \<^verbatim>\<open>JSON.stringify(v, null, 2)\<close>, \<open>StringToNumber\<close> is the
  conversion of a string to a number (\<open>None\<close> for NaN) and \<open>Array_toString\<close> is
  \<^verbatim>\<open>Array.prototype.toString\<close>.
\<close>

record platform =
  base64_utf8 :: "string \<Rightarrow> string"
  JSON_parse :: "string \<Rightarrow> jsval option"
  JSON_stringify :: "jsval \<Rightarrow> string"
  StringToNumber :: "string \<Rightarrow> int option"
  Array_toString :: "jsval list \<Rightarrow> string"

text \<open>Truthiness, as \<^verbatim>\<open>!x\<close>, \<^verbatim>\<open>x && y\<close>, \<^verbatim>\<open>x || y\<close> and \<^verbatim>\<open>if (x)\<close> test it.\<close>

fun truthy :: "jsval \<Rightarrow> bool" where
  "truthy JUndefined = False"
| "truthy JNull = False"
| "truthy (JBool b) = b"
| "truthy (JNum n) = (n \<noteq> 0)"
| "truthy JNaN = False"
| "truthy (JStr s) = (s \<noteq> [])"
| "truthy (JArr xs) = True"
| "truthy (JObj kvs) = True"

text \<open>
  Reading a property \<^verbatim>\<open>v.k\<close>. On \<^verbatim>\<open>undefined\<close> and \<^verbatim>\<open>null\<close> it throws a TypeError; on an
  object it is the stored value or \<^verbatim>\<open>undefined\<close>; on every other value it is
  \<^verbatim>\<open>undefined\<close> for the keys the source reads (none of them is \<^verbatim>\<open>length\<close>, an index or
  a member of a prototype).
\<close>

fun get_prop :: "jsval \<Rightarrow> string \<Rightarrow> js_error + jsval" where
  "get_prop JUndefined k = Inl TypeError"
| "get_prop JNull k = Inl TypeError"
| "get_prop (JObj kvs) k = Inr (case map_of kvs k of None \<Rightarrow> JUndefined | Some v \<Rightarrow> v)"
| "get_prop v k = Inr JUndefined"

text \<open>
  \<^verbatim>\<open>ToNumber\<close>, which \<^verbatim>\<open>*\<close>, \<^verbatim>\<open>-\<close>, \<^verbatim>\<open><\<close> and \<^verbatim>\<open>>=\<close> apply to an operand when the other one
  is a number; \<open>None\<close> is NaN. A plain object converts through the string
  \<^verbatim>\<open>[object Object]\<close>, which is no number.
\<close>

fun to_number :: "platform \<Rightarrow> jsval \<Rightarrow> int option" where
  "to_number P JUndefined = None"
| "to_number P JNull = Some 0"
| "to_number P (JBool b) = Some (if b then 1 else 0)"
| "to_number P (JNum n) = Some n"
| "to_number P JNaN = None"
| "to_number P (JStr s) = StringToNumber P s"
| "to_number P (JArr xs) = StringToNumber P (Array_toString P xs)"
| "to_number P (JObj kvs) = None"

text \<open>The value of a numeric operation: a number, or NaN.\<close>

definition of_number :: "int option \<Rightarrow> jsval" where
  "of_number r = (case r of None \<Rightarrow> JNaN | Some n \<Rightarrow> JNum n)"

text \<open>\<^verbatim>\<open>n >= v\<close> and \<^verbatim>\<open>v < n\<close> for a number \<open>n\<close>: false when \<open>v\<close> converts to NaN.\<close>

definition num_ge :: "platform \<Rightarrow> int \<Rightarrow> jsval \<Rightarrow> bool" where
  "num_ge P n v = (case to_number P v of None \<Rightarrow> False | Some m \<Rightarrow> n \<ge> m)"

definition lt_num :: "platform \<Rightarrow> jsval \<Rightarrow> int \<Rightarrow> bool" where
  "lt_num P v n = (case to_number P v of None \<Rightarrow> False | Some m \<Rightarrow> m < n)"

section \<open>Credential decoder (lmsIntegration.js)\<close>

text \<open>\<^verbatim>\<open>String.prototype.split\<close> with a one-character separator.\<close>

fun split_on :: "char \<Rightarrow> string \<Rightarrow> string \<Rightarrow> string list" where
  "split_on d cur [] = [cur]"
| "split_on d cur (c # cs) =
     (if c = d then cur # split_on d [] cs else split_on d (cur @ [c]) cs)"

definition split_dot :: "string \<Rightarrow> string list" where
  "split_dot s = split_on (CHR ''.'') [] s"

text \<open>
  \<^verbatim>\<open>base64UrlDecode\<close>: the two global replacements, the padding loop
  \<^verbatim>\<open>while (base64.length % 4) base64 += "="\<close>, then the runtime's decoder.
\<close>

definition replace_char :: "char \<Rightarrow> char \<Rightarrow> string \<Rightarrow> string" where
  "replace_char a b s = map (\<lambda>c. if c = a then b else c) s"

function pad4 :: "string \<Rightarrow> string" where
  "pad4 s = (if length s mod 4 \<noteq> 0 then pad4 (s @ ''='') else s)"
  by pat_completeness auto
termination
proof (relation "measure (\<lambda>s. (4 - length s mod 4) mod 4)")
  show "wf (measure (\<lambda>s::string. (4 - length s mod 4) mod 4))"
    by simp
next
  fix s :: string
  assume a: "length s mod 4 \<noteq> 0"
  have b: "length s mod 4 < 4"
    by simp
  from a b have "length s mod 4 = 1 \<or> length s mod 4 = 2 \<or> length s mod 4 = 3"
    by linarith
  then show "(s @ ''='', s) \<in> measure (\<lambda>s. (4 - length s mod 4) mod 4)"
    by (auto simp: mod_Suc)
qed

declare pad4.simps [simp del]

definition base64UrlDecode :: "platform \<Rightarrow> string \<Rightarrow> string" where
  "base64UrlDecode P str =
     base64_utf8 P (pad4 (replace_char (CHR ''_'') (CHR ''/'') (replace_char (CHR ''-'') (CHR ''+'') str)))"

text \<open>The object \<^verbatim>\<open>{ header, payload, signature: parts[2] }\<close> that \<^verbatim>\<open>decodeJWT\<close> returns.\<close>

record decoded =
  header :: jsval
  payload :: jsval
  signature :: string

text \<open>
  The \<^verbatim>\<open>try\<close> block of \<^verbatim>\<open>decodeJWT\<close>. A truthy token that is no string has no method
  \<^verbatim>\<open>split\<close>, so the call throws a TypeError. \<open>None\<close> is the \<^verbatim>\<open>null\<close> the source returns.
\<close>

definition decodeJWT_try :: "platform \<Rightarrow> jsval \<Rightarrow> js_error + decoded option" where
  "decodeJWT_try P token =
     (if \<not> truthy token then Inr None
      else case token of
        JStr s \<Rightarrow>
          (let parts = split_dot s in
           if length parts \<noteq> 3 then Inr None
           else case JSON_parse P (base64UrlDecode P (parts ! 0)) of
             None \<Rightarrow> Inl SyntaxError
           | Some h \<Rightarrow>
               (case JSON_parse P (base64UrlDecode P (parts ! 1)) of
                  None \<Rightarrow> Inl SyntaxError
                | Some p \<Rightarrow> Inr (Some \<lparr>header = h, payload = p, signature = parts ! 2\<rparr>)))
      | _ \<Rightarrow> Inl TypeError)"

text \<open>\<^verbatim>\<open>decodeJWT\<close>: the \<^verbatim>\<open>catch\<close> clause turns every exception of the block into \<^verbatim>\<open>null\<close>.\<close>

definition decodeJWT :: "platform \<Rightarrow> jsval \<Rightarrow> js_error + decoded option" where
  "decodeJWT P token = catch_all (decodeJWT_try P token) None"

text \<open>
  \<^verbatim>\<open>getTokenExpiration\<close>: \<^verbatim>\<open>decoded.payload.exp * 1000\<close> when the token decodes and the
  claim is truthy, \<^verbatim>\<open>null\<close> otherwise and on every exception.
\<close>

definition getTokenExpiration_try :: "platform \<Rightarrow> jsval \<Rightarrow> js_error + jsval" where
  "getTokenExpiration_try P jwt =
     and_then (decodeJWT P jwt) (\<lambda>dec.
       case dec of
         None \<Rightarrow> Inr JNull
       | Some d \<Rightarrow>
           and_then (get_prop (payload d) ''exp'') (\<lambda>x.
             if truthy x then Inr (of_number (map_option (\<lambda>n. n * 1000) (to_number P x)))
             else Inr JNull))"

definition getTokenExpiration :: "platform \<Rightarrow> jsval \<Rightarrow> js_error + jsval" where
  "getTokenExpiration P jwt = catch_all (getTokenExpiration_try P jwt) JNull"

section \<open>The state of one run\<close>

text \<open>
  The part of the machine the token engine reads and writes: the cache directory
  \<^verbatim>\<open>~/.n8n-desktop\<close> (does it exist), the cache file \<^verbatim>\<open>jwt-cache.json\<close> in it (its contents,
  \<open>None\<close> when there is no such file), the fields \<^verbatim>\<open>cachedToken\<close>, \<^verbatim>\<open>jwtToken\<close> and
  \<^verbatim>\<open>lastResponse\<close> of the \<^verbatim>\<open>LMSIntegration\<close> object, the clock that \<^verbatim>\<open>Date.now()\<close> reads (in
  milliseconds) and the number of calls of \<^verbatim>\<open>performSSOLogin\<close> made so far.
  \<open>write_fault\<close> is what stands in the way of creating the directory and of writing the
  file, if anything does: \<^verbatim>\<open>ENOTDIR\<close> when the path of the directory is a regular file,
  \<^verbatim>\<open>EACCES\<close> when the user may not write there, \<^verbatim>\<open>ENOSPC\<close> when the disk is full. A
  function that changes the state returns the new state beside its result; the state it
  returns with an exception holds the changes made before the exception.
\<close>

record world =
  cache_dir :: bool
  cache_file :: "string option"
  cachedToken :: jsval
  jwtToken :: jsval
  lastResponse :: jsval
  clock :: int
  acquisitions :: nat
  write_fault :: "js_error option"

text \<open>
  The calls of \<^verbatim>\<open>fs\<close> on these two paths. They fail as the file system says for the state
  it is in: reading and unlinking a file that is not there, writing into a directory that
  is not there, and creating the directory or writing the file against the fault of the
  state. Faults in reading or unlinking a file that does exist are outside the model.
\<close>

definition existsSync_dir :: "world \<Rightarrow> bool" where
  "existsSync_dir w = cache_dir w"

definition mkdirSync :: "world \<Rightarrow> (js_error + unit) \<times> world" where
  "mkdirSync w =
     (case write_fault w of
        Some e \<Rightarrow> (Inl e, w)
      | None \<Rightarrow> (Inr (), w\<lparr>cache_dir := True\<rparr>))"

definition existsSync_file :: "world \<Rightarrow> bool" where
  "existsSync_file w = (cache_file w \<noteq> None)"

definition readFileSync :: "world \<Rightarrow> js_error + string" where
  "readFileSync w = (case cache_file w of None \<Rightarrow> Inl ENOENT | Some c \<Rightarrow> Inr c)"

definition writeFileSync :: "string \<Rightarrow> world \<Rightarrow> (js_error + unit) \<times> world" where
  "writeFileSync c w =
     (case write_fault w of
        Some e \<Rightarrow> (Inl e, w)
      | None \<Rightarrow>
          if cache_dir w then (Inr (), w\<lparr>cache_file := Some c\<rparr>) else (Inl ENOENT, w))"

definition unlinkSync :: "world \<Rightarrow> (js_error + unit) \<times> world" where
  "unlinkSync w =
     (case cache_file w of
        None \<Rightarrow> (Inl ENOENT, w)
      | Some c \<Rightarrow> (Inr (), w\<lparr>cache_file := None\<rparr>))"

text \<open>\<^verbatim>\<open>try { ... } catch (error) { ... }\<close> around a block that changes the state.\<close>

definition try_catch ::
  "(js_error + 'a) \<times> world \<Rightarrow> (js_error \<Rightarrow> world \<Rightarrow> (js_error + 'a) \<times> world) \<Rightarrow> (js_error + 'a) \<times> world" where
  "try_catch r h = (case r of (Inl e, w) \<Rightarrow> h e w | (Inr v, w) \<Rightarrow> (Inr v, w))"

text \<open>A statement followed by \<^verbatim>\<open>return v\<close>.\<close>

definition then_return :: "(js_error + unit) \<times> world \<Rightarrow> 'a \<Rightarrow> (js_error + 'a) \<times> world" where
  "then_return r v = (case r of (Inl e, w) \<Rightarrow> (Inl e, w) | (Inr u, w) \<Rightarrow> (Inr v, w))"

section \<open>Token cache store (lmsIntegration.js)\<close>

definition ensureCacheDirectory :: "world \<Rightarrow> (js_error + unit) \<times> world" where
  "ensureCacheDirectory w = (if \<not> existsSync_dir w then mkdirSync w else (Inr (), w))"

text \<open>
  The object literal \<^verbatim>\<open>cacheData\<close> of \<^verbatim>\<open>saveTokenToCache\<close>. A field the token data does not
  have is \<^verbatim>\<open>undefined\<close> in it.
\<close>

definition cacheData :: "platform \<Rightarrow> world \<Rightarrow> jsval \<Rightarrow> js_error + jsval" where
  "cacheData P w tokenData =
     and_then (get_prop tokenData ''jwt'') (\<lambda>jwt.
     and_then (get_prop tokenData ''isNIEUser'') (\<lambda>nie.
     and_then (get_prop tokenData ''isLDAPEnabled'') (\<lambda>ldap.
     and_then (get_prop tokenData ''hasGroupAccess'') (\<lambda>grp.
     and_then (get_prop tokenData ''key'') (\<lambda>k.
     and_then (getTokenExpiration P jwt) (\<lambda>expires.
       Inr (JObj [(''jwt'', jwt), (''isNIEUser'', nie), (''isLDAPEnabled'', ldap),
                  (''hasGroupAccess'', grp), (''key'', k), (''cachedAt'', JNum (clock w)),
                  (''expiresAt'', expires)])))))))"

definition saveTokenToCache_try :: "platform \<Rightarrow> jsval \<Rightarrow> world \<Rightarrow> (js_error + bool) \<times> world" where
  "saveTokenToCache_try P tokenData w =
     (case ensureCacheDirectory w of
        (Inl e, w1) \<Rightarrow> (Inl e, w1)
      | (Inr u, w1) \<Rightarrow>
          (case cacheData P w1 tokenData of
             Inl e \<Rightarrow> (Inl e, w1)
           | Inr cd \<Rightarrow>
               (case writeFileSync (JSON_stringify P cd) w1 of
                  (Inl e, w2) \<Rightarrow> (Inl e, w2)
                | (Inr u, w2) \<Rightarrow> (Inr True, w2\<lparr>cachedToken := cd\<rparr>))))"

definition saveTokenToCache :: "platform \<Rightarrow> jsval \<Rightarrow> world \<Rightarrow> (js_error + bool) \<times> world" where
  "saveTokenToCache P tokenData w =
     try_catch (saveTokenToCache_try P tokenData w) (\<lambda>e w1. (Inr False, w1))"

definition clearTokenCache_try :: "world \<Rightarrow> (js_error + unit) \<times> world" where
  "clearTokenCache_try w =
     (if existsSync_file w then
        (case unlinkSync w of
           (Inl e, w1) \<Rightarrow> (Inl e, w1)
         | (Inr u, w1) \<Rightarrow> (Inr (), w1\<lparr>cachedToken := JNull\<rparr>))
      else (Inr (), w\<lparr>cachedToken := JNull\<rparr>))"

definition clearTokenCache :: "world \<Rightarrow> (js_error + unit) \<times> world" where
  "clearTokenCache w = try_catch (clearTokenCache_try w) (\<lambda>e w1. (Inr (), w1))"

definition loadTokenFromCache_try :: "platform \<Rightarrow> world \<Rightarrow> (js_error + jsval) \<times> world" where
  "loadTokenFromCache_try P w =
     (if existsSync_file w then
        (case readFileSync w of
           Inl e \<Rightarrow> (Inl e, w)
         | Inr c \<Rightarrow>
             (case JSON_parse P c of
                None \<Rightarrow> (Inl SyntaxError, w)
              | Some cd \<Rightarrow> (Inr cd, w\<lparr>cachedToken := cd\<rparr>)))
      else (Inr JNull, w))"

definition loadTokenFromCache :: "platform \<Rightarrow> world \<Rightarrow> (js_error + jsval) \<times> world" where
  "loadTokenFromCache P w =
     try_catch (loadTokenFromCache_try P w) (\<lambda>e w1. then_return (clearTokenCache w1) JNull)"



section \<open>Token validity policy (lmsIntegration.js)\<close>

definition bufferTime :: int where
  "bufferTime = 5 * 60 * 1000"

text \<open>
  \<^verbatim>\<open>isCachedTokenValid\<close>. The function reads the clock twice in one synchronous run; the
  model reads one instant.
\<close>

definition isCachedTokenValid :: "platform \<Rightarrow> world \<Rightarrow> jsval \<Rightarrow> js_error + bool" where
  "isCachedTokenValid P w cached =
     (if \<not> truthy cached then Inr False
      else and_then (get_prop cached ''jwt'') (\<lambda>jwt.
        if \<not> truthy jwt then Inr False
        else and_then (get_prop cached ''expiresAt'') (\<lambda>expiresAt.
          if truthy expiresAt \<and> num_ge P (clock w) expiresAt then Inr False
          else if truthy expiresAt \<and>
                  num_ge P (clock w)
                    (of_number (map_option (\<lambda>n. n - bufferTime) (to_number P expiresAt)))
          then Inr False
          else and_then (decodeJWT P jwt) (\<lambda>dec.
            if dec = None then Inr False else Inr True))))"

text \<open>\<^verbatim>\<open>isJWTExpired\<close>, with \<^verbatim>\<open>Math.floor(Date.now() / 1000)\<close> the current second.\<close>

definition isJWTExpired_try :: "platform \<Rightarrow> world \<Rightarrow> jsval \<Rightarrow> js_error + bool" where
  "isJWTExpired_try P w token =
     and_then (decodeJWT P token) (\<lambda>dec.
       case dec of
         None \<Rightarrow> Inr True
       | Some d \<Rightarrow>
           and_then (get_prop (payload d) ''exp'') (\<lambda>x.
             if \<not> truthy x then Inr True
             else Inr (lt_num P x (clock w div 1000))))"

definition isJWTExpired :: "platform \<Rightarrow> world \<Rightarrow> jsval \<Rightarrow> js_error + bool" where
  "isJWTExpired P w token = catch_all (isJWTExpired_try P w token) True"

section \<open>Credential acquisition client (lmsIntegration.js)\<close>

text \<open>
  \<^verbatim>\<open>getJWTInfo\<close>, which \<^verbatim>\<open>displayJWTInfo\<close> calls on a fresh token. It has no \<^verbatim>\<open>try\<close> of its
  own: reading a claim of a payload that is \<^verbatim>\<open>null\<close> throws. A date is held as its time
  value.
\<close>

record jwt_info =
  info_header :: jsval
  info_payload :: jsval
  isExpired :: bool
  expirationDate :: jsval
  issuedDate :: jsval
  username :: jsval
  algorithm :: jsval

definition date_of_seconds :: "platform \<Rightarrow> jsval \<Rightarrow> jsval" where
  "date_of_seconds P x =
     (if truthy x then of_number (map_option (\<lambda>n. n * 1000) (to_number P x)) else JNull)"

definition getJWTInfo :: "platform \<Rightarrow> world \<Rightarrow> jsval \<Rightarrow> js_error + jwt_info option" where
  "getJWTInfo P w token =
     (let jwt = (if truthy token then token else jwtToken w) in
      if \<not> truthy jwt then Inr None
      else and_then (decodeJWT P jwt) (\<lambda>dec.
        case dec of
          None \<Rightarrow> Inr None
        | Some d \<Rightarrow>
            and_then (isJWTExpired P w jwt) (\<lambda>expired.
            and_then (get_prop (payload d) ''exp'') (\<lambda>x.
            and_then (get_prop (payload d) ''iat'') (\<lambda>i.
            and_then (get_prop (payload d) ''username'') (\<lambda>u.
            and_then (if truthy u then Inr u
                      else and_then (get_prop (payload d) ''body'') (\<lambda>b.
                        if b = JNull \<or> b = JUndefined then Inr JUndefined
                        else get_prop b ''username'')) (\<lambda>name.
            and_then (get_prop (header d) ''alg'') (\<lambda>alg.
              Inr (Some \<lparr>info_header = header d, info_payload = payload d,
                         isExpired = expired, expirationDate = date_of_seconds P x,
                         issuedDate = date_of_seconds P i, username = name,
                         algorithm = alg\<rparr>)))))))))"

definition displayJWTInfo :: "platform \<Rightarrow> world \<Rightarrow> jsval \<Rightarrow> js_error + unit" where
  "displayJWTInfo P w token = and_then (getJWTInfo P w token) (\<lambda>info. Inr ())"

text \<open>
  The exchange with the server, as \<^verbatim>\<open>performSSOLogin\<close> sees it: no response at all (the
  \<^verbatim>\<open>fetch\<close> rejects), or a response with its status and its body as \<^verbatim>\<open>response.json()\<close>
  reads it (\<open>None\<close> when the body is no JSON). \<open>sso_elapsed\<close> is the time the exchange
  takes. The request body (\<^verbatim>\<open>getSystemInfoWithPublicIP\<close>, which catches its own exceptions)
  has no part in what the function returns.
\<close>

datatype http_reply = No_reply | Reply nat "jsval option"

record network =
  sso_reply :: "jsval \<Rightarrow> http_reply"
  sso_elapsed :: nat

definition performSSOLogin_try ::
  "network \<Rightarrow> platform \<Rightarrow> jsval \<Rightarrow> world \<Rightarrow> (js_error + jsval) \<times> world" where
  "performSSOLogin_try N P bearerToken w =
     (case sso_reply N bearerToken of
        No_reply \<Rightarrow> (Inl NetworkError, w)
      | Reply status body \<Rightarrow>
          if \<not> (200 \<le> status \<and> status \<le> 299) then (Inl HttpError, w)
          else (case body of
                  None \<Rightarrow> (Inl SyntaxError, w)
                | Some data \<Rightarrow>
                    (case get_prop data ''jwt'' of
                       Inl e \<Rightarrow> (Inl e, w)
                     | Inr jwt \<Rightarrow>
                         if truthy jwt then
                           (let w1 = w\<lparr>jwtToken := jwt\<rparr> in
                            case displayJWTInfo P w1 jwt of
                              Inl e \<Rightarrow> (Inl e, w1)
                            | Inr u \<Rightarrow> (Inr data, w1))
                         else (Inr data, w))))"

definition performSSOLogin ::
  "network \<Rightarrow> platform \<Rightarrow> jsval \<Rightarrow> world \<Rightarrow> (js_error + jsval) \<times> world" where
  "performSSOLogin N P bearerToken w =
     try_catch
       (performSSOLogin_try N P bearerToken
          (w\<lparr>acquisitions := Suc (acquisitions w), clock := clock w + int (sso_elapsed N)\<rparr>))
       (\<lambda>e w1. (Inr JNull, w1))"

section \<open>Access gate (lmsIntegration.js)\<close>

definition getValidToken ::
  "network \<Rightarrow> platform \<Rightarrow> jsval \<Rightarrow> world \<Rightarrow> (js_error + jsval) \<times> world" where
  "getValidToken N P bearerToken w =
     (case loadTokenFromCache P w of
        (Inl e, w1) \<Rightarrow> (Inl e, w1)
      | (Inr cached, w1) \<Rightarrow>
          (case isCachedTokenValid P w1 cached of
             Inl e \<Rightarrow> (Inl e, w1)
           | Inr True \<Rightarrow>
               (case get_prop cached ''jwt'' of
                  Inl e \<Rightarrow> (Inl e, w1)
                | Inr jwt \<Rightarrow> (Inr cached, w1\<lparr>jwtToken := jwt, lastResponse := cached\<rparr>))
           | Inr False \<Rightarrow>
               (case performSSOLogin N P bearerToken w1 of
                  (Inl e, w2) \<Rightarrow> (Inl e, w2)
                | (Inr tokenData, w2) \<Rightarrow>
                    if truthy tokenData then
                      (case saveTokenToCache P tokenData w2 of
                         (Inl e, w3) \<Rightarrow> (Inl e, w3)
                       | (Inr saved, w3) \<Rightarrow> (Inr tokenData, w3))
                    else (Inr JNull, w2))))"

text \<open>
  \<^verbatim>\<open>this.exitProcess(code)\<close>. The class \<^verbatim>\<open>LMSIntegration\<close> declares no member of that name,
  it extends no class, and no statement of the repository assigns one: the callee is
  \<^verbatim>\<open>undefined\<close> and the call throws a TypeError.
\<close>

definition exitProcess :: "int \<Rightarrow> world \<Rightarrow> (js_error + unit) \<times> world" where
  "exitProcess code w = (Inl TypeError, w)"

text \<open>\<^verbatim>\<open>tokenData.hasGroupAccess || tokenData.isNIEUser || tokenData.isLDAPEnabled\<close>.\<close>

definition hasRequiredAccess :: "jsval \<Rightarrow> js_error + bool" where
  "hasRequiredAccess tokenData =
     and_then (get_prop tokenData ''hasGroupAccess'') (\<lambda>g.
       if truthy g then Inr True
       else and_then (get_prop tokenData ''isNIEUser'') (\<lambda>n.
         if truthy n then Inr True
         else and_then (get_prop tokenData ''isLDAPEnabled'') (\<lambda>l. Inr (truthy l))))"

definition initialize_try ::
  "network \<Rightarrow> platform \<Rightarrow> jsval \<Rightarrow> bool \<Rightarrow> world \<Rightarrow> (js_error + bool) \<times> world" where
  "initialize_try N P bearerToken exitOnFailure w =
     (case getValidToken N P bearerToken w of
        (Inl e, w1) \<Rightarrow> (Inl e, w1)
      | (Inr tokenData, w1) \<Rightarrow>
          if truthy tokenData then
            (let w2 = w1\<lparr>lastResponse := tokenData\<rparr> in
             case hasRequiredAccess tokenData of
               Inl e \<Rightarrow> (Inl e, w2)
             | Inr granted \<Rightarrow>
                 if \<not> granted \<and> exitOnFailure then then_return (exitProcess 2 w2) True
                 else (Inr True, w2))
          else if exitOnFailure then then_return (exitProcess 3 w1) False
          else (Inr False, w1))"

definition initialize ::
  "network \<Rightarrow> platform \<Rightarrow> jsval \<Rightarrow> bool \<Rightarrow> world \<Rightarrow> (js_error + bool) \<times> world" where
  "initialize N P bearerToken exitOnFailure w =
     (if \<not> truthy bearerToken then
        (if exitOnFailure then then_return (exitProcess 1 w) False else (Inr False, w))
      else try_catch (initialize_try N P bearerToken exitOnFailure w)
             (\<lambda>e w1. if exitOnFailure then then_return (exitProcess 4 w1) False
                      else (Inr False, w1)))"

section \<open>Readiness gate (index.js)\<close>

text \<open>
  What the polled service does is not the program's: the outcome of the \<open>k\<close>-th \<^verbatim>\<open>GET\<close> of
  a URL (\<open>k = 0, 1, ...\<close>) is either no response (the \<^verbatim>\<open>fetch\<close> rejects, or building the
  request throws inside the \<^verbatim>\<open>try\<close>) or a response with a status; it takes some time.
  Time is a virtual clock in milliseconds; a timer of \<open>interval\<close> milliseconds adds
  \<open>interval\<close> to it.
\<close>

datatype poll_result = Transport_error | Status nat

record polling =
  response :: "string \<Rightarrow> nat \<Rightarrow> poll_result"
  duration :: "string \<Rightarrow> nat \<Rightarrow> nat"

text \<open>
  The loop \<^verbatim>\<open>while (true)\<close> of \<^verbatim>\<open>check(url)\<close>, at its \<open>k\<close>-th round and at time \<open>t\<close>: it
  returns \<^verbatim>\<open>true\<close> (here with the time of the return), or it never returns, which is the
  value \<open>None\<close>.
\<close>

partial_function (option) check_loop ::
  "(nat \<Rightarrow> poll_result) \<Rightarrow> (nat \<Rightarrow> nat) \<Rightarrow> nat \<Rightarrow> nat \<Rightarrow> nat \<Rightarrow> (bool \<times> nat) option" where
  "check_loop r d interval k t =
     (if r k = Status 200 then Some (True, t + d k)
      else check_loop r d interval (Suc k) (t + d k + interval))"

declare check_loop.simps [code]

definition check :: "polling \<Rightarrow> nat \<Rightarrow> nat \<Rightarrow> string \<Rightarrow> (bool \<times> nat) option" where
  "check net interval t0 url = check_loop (response net url) (duration net url) interval 0 t0"

text \<open>
  \<^verbatim>\<open>Promise.all\<close> over promises that were started together: it resolves once every one
  has resolved, with their values in order, and never when one of them never resolves.
\<close>

fun promise_all :: "('a \<times> nat) option list \<Rightarrow> nat \<Rightarrow> ('a list \<times> nat) option" where
  "promise_all [] t = Some ([], t)"
| "promise_all (None # rs) t = None"
| "promise_all (Some (v, tv) # rs) t =
     (case promise_all rs (max t tv) of
        None \<Rightarrow> None
      | Some (vs, t') \<Rightarrow> Some (v # vs, t'))"

text \<open>The default \<^verbatim>\<open>interval = 250\<close> of the options of \<^verbatim>\<open>waitForUrls\<close>.\<close>

definition interval_of :: "nat option \<Rightarrow> nat" where
  "interval_of i = (case i of None \<Rightarrow> 250 | Some n \<Rightarrow> n)"

definition waitForUrls :: "polling \<Rightarrow> string list \<Rightarrow> nat option \<Rightarrow> nat \<Rightarrow> (bool list \<times> nat) option" where
  "waitForUrls net urls interval t0 =
     promise_all (map (check net (interval_of interval) t0) urls) t0"

text \<open>The time at which the \<open>k\<close>-th poll of a URL returns when all polls before it failed.\<close>

definition poll_time :: "polling \<Rightarrow> nat \<Rightarrow> nat \<Rightarrow> string \<Rightarrow> nat \<Rightarrow> nat" where
  "poll_time net interval t0 url k = t0 + sum_list (map (duration net url) [0..<Suc k]) + k * interval"

section \<open>Process supervisor: whether and how the child is launched (index.js)\<close>

text \<open>
  What \<^verbatim>\<open>main\<close> reads before it decides: \<^verbatim>\<open>ELECTRON_DEV_MODE\<close> (is it set),
  \<^verbatim>\<open>process.platform\<close>, the two environment variables, the result of
  \<^verbatim>\<open>tcpPortUsed.check\<close> and the path of the n8n script.
\<close>

record launch_env =
  isDev :: bool
  os_platform :: string
  background_var :: "string option"
  offline_var :: "string option"
  portInUse :: bool
  n8nScriptPath :: string

datatype child =
    ExecFile string "string list"
  | Fork string "string list"
  | Respawn "string list"

definition bgEnabled :: "launch_env \<Rightarrow> bool" where
  "bgEnabled e = (background_var e = Some ''true'')"

definition offlineEnabled :: "launch_env \<Rightarrow> bool" where
  "offlineEnabled e = (offline_var e = Some ''true'')"

text \<open>\<^verbatim>\<open>const shouldInit = !bgEnabled || !portInUse\<close>.\<close>

definition shouldInit :: "bool \<Rightarrow> bool \<Rightarrow> bool" where
  "shouldInit bg port = (\<not> bg \<or> \<not> port)"

definition endsWith :: "string \<Rightarrow> string \<Rightarrow> bool" where
  "endsWith s suf = (length suf \<le> length s \<and> drop (length s - length suf) s = suf)"

text \<open>The value of \<^verbatim>\<open>n8nProcess\<close> after the two launch blocks of \<^verbatim>\<open>main\<close>; \<open>None\<close> is \<^verbatim>\<open>undefined\<close>.\<close>

definition n8nProcess :: "launch_env \<Rightarrow> child option" where
  "n8nProcess e =
     (let init = shouldInit (bgEnabled e) (portInUse e);
          isMac = (os_platform e = ''darwin'');
          isWin = (os_platform e = ''win32'');
          devCliArgs = (if offlineEnabled e then butlast [''start'', ''--tunnel'']
                        else [''start'', ''--tunnel'']);
          p1 = (if isDev e \<and> init \<and> isMac then Some (ExecFile (n8nScriptPath e) devCliArgs)
                else None);
          p2 = (if isDev e \<and> init \<and> isWin then Some (Fork (n8nScriptPath e) devCliArgs)
                else p1);
          isBinary = (\<not> endsWith (n8nScriptPath e) ''.js'');
          prodCliArgs = (if isBinary then [] else [n8nScriptPath e, ''start'', ''--tunnel'']);
          prodCliArgs' = (if \<not> isBinary \<and> offlineEnabled e then butlast prodCliArgs
                          else prodCliArgs);
          spawnArgs = (if isBinary then [n8nScriptPath e] else ''node'' # prodCliArgs')
      in if \<not> isDev e \<and> init then Some (Respawn spawnArgs) else p2)"

section \<open>Sample inputs\<close>

text \<open>
  Concrete inputs at which the theorems below are instantiated. The token \<open>token_2033\<close> has
  the header \<^verbatim>\<open>{}\<close> and the payload \<^verbatim>\<open>{"exp":2000000000}\<close>; \<open>token_no_exp\<close> has the payload
  \<^verbatim>\<open>{}\<close> and \<open>token_soon\<close> the payload \<^verbatim>\<open>{"exp":"soon"}\<close>, whose expiry claim is a string
  that is no number. \<open>node_sample\<close> holds what the functions of the runtime compute on the strings
  of these samples (the base64 of a text, the JSON text of a value); on every other
  argument it answers with the empty text and with a SyntaxError.
\<close>

definition token_2033 :: string where
  "token_2033 = ''e30.eyJleHAiOjIwMDAwMDAwMDB9.c2ln''"

definition token_no_exp :: string where
  "token_no_exp = ''e30.e30.c2ln''"

definition token_soon :: string where
  "token_soon = ''e30.eyJleHAiOiJzb29uIn0.c2ln''"

definition response_2033 :: jsval where
  "response_2033 =
     JObj [(''jwt'', JStr token_2033), (''isNIEUser'', JBool True),
           (''isLDAPEnabled'', JBool False), (''hasGroupAccess'', JBool True),
           (''key'', JStr ''k1'')]"

definition record_2033 :: jsval where
  "record_2033 =
     JObj [(''jwt'', JStr token_2033), (''isNIEUser'', JBool True),
           (''isLDAPEnabled'', JBool False), (''hasGroupAccess'', JBool True),
           (''key'', JStr ''k1''), (''cachedAt'', JNum 1700000000000),
           (''expiresAt'', JNum 2000000000000)]"


definition record_soon :: jsval where
  "record_soon =
     JObj [(''jwt'', JStr token_soon), (''isNIEUser'', JBool True),
           (''isLDAPEnabled'', JBool False), (''hasGroupAccess'', JBool True),
           (''key'', JStr ''k1''), (''cachedAt'', JNum 1700000000000),
           (''expiresAt'', JNaN)]"

definition record_soon_stored :: jsval where
  "record_soon_stored =
     JObj [(''jwt'', JStr token_soon), (''isNIEUser'', JBool True),
           (''isLDAPEnabled'', JBool False), (''hasGroupAccess'', JBool True),
           (''key'', JStr ''k1''), (''cachedAt'', JNum 1700000000000),
           (''expiresAt'', JNull)]"

fun join_lines :: "string list \<Rightarrow> string" where
  "join_lines [] = []"
| "join_lines [l] = l"
| "join_lines (l # ls) = l @ CHR 0x0A # join_lines ls"

definition record_2033_text :: string where
  \<open>record_2033_text =
     join_lines
       [''{'',
        ''  "jwt": "e30.eyJleHAiOjIwMDAwMDAwMDB9.c2ln",'',
        ''  "isNIEUser": true,'',
        ''  "isLDAPEnabled": false,'',
        ''  "hasGroupAccess": true,'',
        ''  "key": "k1",'',
        ''  "cachedAt": 1700000000000,'',
        ''  "expiresAt": 2000000000000'',
        ''}'']\<close>

definition record_soon_text :: string where
  \<open>record_soon_text =
     join_lines
       [''{'',
        ''  "jwt": "e30.eyJleHAiOiJzb29uIn0.c2ln",'',
        ''  "isNIEUser": true,'',
        ''  "isLDAPEnabled": false,'',
        ''  "hasGroupAccess": true,'',
        ''  "key": "k1",'',
        ''  "cachedAt": 1700000000000,'',
        ''  "expiresAt": null'',
        ''}'']\<close>

definition node_sample :: platform where
  \<open>node_sample =
     \<lparr>base64_utf8 =
        (\<lambda>s. if s = ''e30='' then ''{}''
             else if s = ''eyJleHAiOjIwMDAwMDAwMDB9'' then ''{"exp":2000000000}''
             else if s = ''eyJleHAiOiJzb29uIn0='' then ''{"exp":"soon"}''
             else []),
      JSON_parse =
        (\<lambda>s. if s = ''{}'' then Some (JObj [])
             else if s = ''{"exp":2000000000}'' then Some (JObj [(''exp'', JNum 2000000000)])
             else if s = ''{"exp":"soon"}'' then Some (JObj [(''exp'', JStr ''soon'')])
             else if s = record_2033_text then Some record_2033
             else if s = record_soon_text then Some record_soon_stored
             else None),
      JSON_stringify =
        (\<lambda>v. if v = record_2033 then record_2033_text
             else if v = record_soon then record_soon_text
             else ''null''),
      StringToNumber = (\<lambda>s. None),
      Array_toString = (\<lambda>xs. [])\<rparr>\<close>

definition world_2023 :: world where
  "world_2023 =
     \<lparr>cache_dir = False, cache_file = None, cachedToken = JNull, jwtToken = JUndefined,
      lastResponse = JUndefined, clock = 1700000000000, acquisitions = 0,
      write_fault = None\<rparr>"

text \<open>A server that answers every request with \<open>response_2033\<close> after 120 ms.\<close>

definition server_2033 :: network where
  "server_2033 = \<lparr>sso_reply = (\<lambda>b. Reply 200 (Some response_2033)), sso_elapsed = 120\<rparr>"

text \<open>
  The service of the scenario of the specification: \<^verbatim>\<open>/a\<close> answers 200 at once, \<^verbatim>\<open>/b\<close>
  answers 500 and then 200; every request takes 10 ms.
\<close>

definition service_ab :: polling where
  "service_ab =
     \<lparr>response = (\<lambda>url k. if url = ''http://x/b'' \<and> k = 0 then Status 500 else Status 200),
      duration = (\<lambda>url k. 10)\<rparr>"

text \<open>
  A service where \<^verbatim>\<open>/c\<close> first refuses the connection, then answers 503 and then 200,
  where \<^verbatim>\<open>/down\<close> never accepts a connection, and every other URL answers 200 at once.
\<close>

definition service_c :: polling where
  "service_c =
     \<lparr>response =
        (\<lambda>url k. if url = ''http://x/down'' then Transport_error
                 else if url = ''http://x/c'' \<and> k = 0 then Transport_error
                 else if url = ''http://x/c'' \<and> k = 1 then Status 503
                 else Status 200),
      duration = (\<lambda>url k. 10)\<rparr>"

section \<open>The credential decoder never throws and decodes exactly the three-part tokens\<close>

lemma split_on_length: "length (split_on d cur s) = Suc (count_list s d)"
  by (induction s arbitrary: cur) auto

lemma split_dot_length: "length (split_dot s) = Suc (count_list s (CHR ''.''))"
  by (simp add: split_dot_def split_on_length)

lemma split_dot_Nil: "split_dot [] = [[]]"
  by (simp add: split_dot_def)

lemma decodeJWT_returns: "\<exists>r. decodeJWT P token = Inr r"
  by (simp add: decodeJWT_def catch_all_def split: sum.splits)

lemma decodeJWT_three:
  assumes "split_dot s = [a, b, c]"
  shows "decodeJWT P (JStr s) =
    Inr (case JSON_parse P (base64UrlDecode P a) of
           None \<Rightarrow> None
         | Some h \<Rightarrow>
            (case JSON_parse P (base64UrlDecode P b) of
               None \<Rightarrow> None
             | Some p \<Rightarrow> Some \<lparr>header = h, payload = p, signature = c\<rparr>))"
proof -
  from assms have "s \<noteq> []"
    by (auto simp: split_dot_Nil)
  with assms show ?thesis
    by (simp add: decodeJWT_def catch_all_def decodeJWT_try_def Let_def split: option.splits)
qed

lemma decodeJWT_not_three:
  assumes "length (split_dot s) \<noteq> 3"
  shows "decodeJWT P (JStr s) = Inr None"
  using assms by (simp add: decodeJWT_def catch_all_def decodeJWT_try_def Let_def)

lemma split_on_plain: "d \<notin> set a \<Longrightarrow> split_on d cur a = [cur @ a]"
  by (induction a arbitrary: cur) auto

lemma split_on_delim:
  "d \<notin> set a \<Longrightarrow> split_on d cur (a @ d # rest) = (cur @ a) # split_on d [] rest"
  by (induction a arbitrary: cur) auto

lemma split_dot_three_segments:
  assumes "CHR ''.'' \<notin> set a" and "CHR ''.'' \<notin> set b" and "CHR ''.'' \<notin> set c"
  shows "split_dot (a @ ''.'' @ b @ ''.'' @ c) = [a, b, c]"
  using assms by (simp add: split_dot_def split_on_delim split_on_plain)

lemma pad4_replicate: "pad4 s = s @ replicate ((4 - length s mod 4) mod 4) (CHR ''='')"
proof (induction s rule: pad4.induct)
  case (1 s)
  show ?case
  proof (cases "length s mod 4 = 0")
    case True
    then show ?thesis by (subst pad4.simps) simp
  next
    case False
    have b: "length s mod 4 < 4" by simp
    from False b have c: "length s mod 4 = 1 \<or> length s mod 4 = 2 \<or> length s mod 4 = 3"
      by linarith
    then have "Suc ((4 - Suc (length s) mod 4) mod 4) = (4 - length s mod 4) mod 4"
      by (auto simp: mod_Suc)
    then have "replicate ((4 - length s mod 4) mod 4) (CHR ''='') =
        CHR ''='' # replicate ((4 - Suc (length s) mod 4) mod 4) (CHR ''='')"
      by (metis replicate_Suc)
    with False 1 show ?thesis
      by (subst pad4.simps) simp
  qed
qed

lemma base64UrlDecode_eq:
  "base64UrlDecode P seg =
     base64_utf8 P
       (map (\<lambda>x. if x = CHR ''-'' then CHR ''+'' else if x = CHR ''_'' then CHR ''/'' else x) seg @
        replicate ((4 - length seg mod 4) mod 4) (CHR ''=''))"
proof -
  have "replace_char (CHR ''_'') (CHR ''/'') (replace_char (CHR ''-'') (CHR ''+'') seg) =
      map (\<lambda>x. if x = CHR ''-'' then CHR ''+'' else if x = CHR ''_'' then CHR ''/'' else x) seg"
    by (simp add: replace_char_def)
  then show ?thesis
    by (simp add: base64UrlDecode_def pad4_replicate)
qed

text \<open>
  Claim C7. For every token, \<^verbatim>\<open>decodeJWT\<close> returns and does not throw. On the absent
  tokens \<^verbatim>\<open>undefined\<close> and \<^verbatim>\<open>null\<close> and on the empty string it returns \<^verbatim>\<open>null\<close>. On a string
  that does not hold exactly two dots, which is one that does not split into exactly
  three segments, it returns \<^verbatim>\<open>null\<close>. On a string \<open>a.b.c\<close> of three segments without a
  dot it returns \<^verbatim>\<open>null\<close> when \<open>a\<close> or \<open>b\<close>, translated from the URL alphabet, padded with
  \<^verbatim>\<open>=\<close> to a multiple of four and decoded, does not parse as JSON, and the parsed header,
  the parsed payload and \<open>c\<close> otherwise.
\<close>

theorem decodeJWT_segments:
  "(\<exists>r. decodeJWT P token = Inr r) \<and>
   decodeJWT P JUndefined = Inr None \<and>
   decodeJWT P JNull = Inr None \<and>
   decodeJWT P (JStr []) = Inr None \<and>
   (count_list s (CHR ''.'') \<noteq> 2 \<longrightarrow> decodeJWT P (JStr s) = Inr None) \<and>
   (CHR ''.'' \<notin> set a \<and> CHR ''.'' \<notin> set b \<and> CHR ''.'' \<notin> set c \<longrightarrow>
      decodeJWT P (JStr (a @ ''.'' @ b @ ''.'' @ c)) =
        (let text_of = (\<lambda>seg. base64_utf8 P
               (map (\<lambda>x. if x = CHR ''-'' then CHR ''+'' else if x = CHR ''_'' then CHR ''/'' else x) seg @
                replicate ((4 - length seg mod 4) mod 4) (CHR ''='')))
         in Inr (case JSON_parse P (text_of a) of
                   None \<Rightarrow> None
                 | Some h \<Rightarrow>
                     (case JSON_parse P (text_of b) of
                        None \<Rightarrow> None
                      | Some p \<Rightarrow> Some \<lparr>header = h, payload = p, signature = c\<rparr>))))"
proof (intro conjI impI)
  show "\<exists>r. decodeJWT P token = Inr r"
    by (rule decodeJWT_returns)
  show "decodeJWT P JUndefined = Inr None"
    by (simp add: decodeJWT_def decodeJWT_try_def catch_all_def)
  show "decodeJWT P JNull = Inr None"
    by (simp add: decodeJWT_def decodeJWT_try_def catch_all_def)
  show "decodeJWT P (JStr []) = Inr None"
    by (simp add: decodeJWT_def decodeJWT_try_def catch_all_def)
  show "decodeJWT P (JStr s) = Inr None" if "count_list s (CHR ''.'') \<noteq> 2"
  proof -
    from that have "length (split_dot s) \<noteq> 3"
      by (simp add: split_dot_length)
    then show ?thesis by (rule decodeJWT_not_three)
  qed
  show "decodeJWT P (JStr (a @ ''.'' @ b @ ''.'' @ c)) =
        (let text_of = (\<lambda>seg. base64_utf8 P
               (map (\<lambda>x. if x = CHR ''-'' then CHR ''+'' else if x = CHR ''_'' then CHR ''/'' else x) seg @
                replicate ((4 - length seg mod 4) mod 4) (CHR ''='')))
         in Inr (case JSON_parse P (text_of a) of
                   None \<Rightarrow> None
                 | Some h \<Rightarrow>
                     (case JSON_parse P (text_of b) of
                        None \<Rightarrow> None
                      | Some p \<Rightarrow> Some \<lparr>header = h, payload = p, signature = c\<rparr>)))"
    if "CHR ''.'' \<notin> set a \<and> CHR ''.'' \<notin> set b \<and> CHR ''.'' \<notin> set c"
  proof -
    have "split_dot (a @ ''.'' @ b @ ''.'' @ c) = [a, b, c]"
      using that by (intro split_dot_three_segments) simp_all
    from decodeJWT_three [OF this, unfolded base64UrlDecode_eq] show ?thesis
      by (simp add: Let_def)
  qed
qed

text \<open>
  The token of the samples decodes to its header, payload and signature; a token whose
  second segment is the base64 of \<^verbatim>\<open>not\<close>, one of two segments and one of four do not.
\<close>

theorem decodeJWT_segments_witness:
  "decodeJWT node_sample (JStr ''e30.eyJleHAiOjIwMDAwMDAwMDB9.c2ln'') =
     Inr (Some \<lparr>header = JObj [], payload = JObj [(''exp'', JNum 2000000000)],
                signature = ''c2ln''\<rparr>) \<and>
   decodeJWT node_sample (JStr ''e30.bm90.c2ln'') = Inr None \<and>
   decodeJWT node_sample (JStr ''e30.e30'') = Inr None \<and>
   decodeJWT node_sample (JStr ''e30.e30.c2ln.x'') = Inr None"
proof (intro conjI)
  show "decodeJWT node_sample (JStr ''e30.eyJleHAiOjIwMDAwMDAwMDB9.c2ln'') =
     Inr (Some \<lparr>header = JObj [], payload = JObj [(''exp'', JNum 2000000000)],
                signature = ''c2ln''\<rparr>)"
    using decodeJWT_segments [THEN conjunct2, THEN conjunct2, THEN conjunct2, THEN conjunct2,
        THEN conjunct2, rule_format,
        where a = "''e30''" and b = "''eyJleHAiOjIwMDAwMDAwMDB9''" and c = "''c2ln''"
          and P = node_sample]
    by (simp add: node_sample_def)
  show "decodeJWT node_sample (JStr ''e30.bm90.c2ln'') = Inr None"
    using decodeJWT_segments [THEN conjunct2, THEN conjunct2, THEN conjunct2, THEN conjunct2,
        THEN conjunct2, rule_format,
        where a = "''e30''" and b = "''bm90''" and c = "''c2ln''" and P = node_sample]
    by (simp add: node_sample_def record_2033_text_def record_soon_text_def)
  show "decodeJWT node_sample (JStr ''e30.e30'') = Inr None"
    using decodeJWT_segments [THEN conjunct2, THEN conjunct2, THEN conjunct2, THEN conjunct2,
        THEN conjunct1, rule_format, where s = "''e30.e30''" and P = node_sample]
    by simp
  show "decodeJWT node_sample (JStr ''e30.e30.c2ln.x'') = Inr None"
    using decodeJWT_segments [THEN conjunct2, THEN conjunct2, THEN conjunct2, THEN conjunct2,
        THEN conjunct1, rule_format, where s = "''e30.e30.c2ln.x''" and P = node_sample]
    by simp
qed

section \<open>The validity policy\<close>

lemma get_prop_truthy: "get_prop c k = Inr v \<Longrightarrow> truthy v \<Longrightarrow> truthy c"
  by (cases c) auto

lemma get_prop_of_truthy: "truthy c \<Longrightarrow> \<exists>v. get_prop c k = Inr v"
  by (cases c) auto

lemma decodeJWT_Some_truthy: "decodeJWT P t = Inr (Some d) \<Longrightarrow> truthy t"
  by (auto simp: decodeJWT_def catch_all_def decodeJWT_try_def split: sum.splits if_splits)

lemma tokens_nonempty: "token_2033 \<noteq> []" "token_no_exp \<noteq> []"
  by (simp_all add: token_2033_def token_no_exp_def)

lemma decode_token_2033:
  "decodeJWT node_sample (JStr token_2033) =
     Inr (Some \<lparr>header = JObj [], payload = JObj [(''exp'', JNum 2000000000)],
                signature = ''c2ln''\<rparr>)"
  by (simp add: decodeJWT_def catch_all_def decodeJWT_try_def token_2033_def split_dot_def
      Let_def base64UrlDecode_def replace_char_def pad4.simps node_sample_def)

lemma decode_token_no_exp:
  "decodeJWT node_sample (JStr token_no_exp) =
     Inr (Some \<lparr>header = JObj [], payload = JObj [], signature = ''c2ln''\<rparr>)"
  by (simp add: decodeJWT_def catch_all_def decodeJWT_try_def token_no_exp_def split_dot_def
      Let_def base64UrlDecode_def replace_char_def pad4.simps node_sample_def)

lemma isCachedTokenValid_returns: "\<exists>b. isCachedTokenValid P w cached = Inr b"
proof (cases "truthy cached")
  case False
  then have "isCachedTokenValid P w cached = Inr False"
    by (simp add: isCachedTokenValid_def)
  then show ?thesis by blast
next
  case True
  obtain jwt where j: "get_prop cached ''jwt'' = Inr jwt"
    using True get_prop_of_truthy by blast
  obtain x where x: "get_prop cached ''expiresAt'' = Inr x"
    using True get_prop_of_truthy by blast
  obtain r where r: "decodeJWT P jwt = Inr r"
    using decodeJWT_returns by blast
  from True j x r have "isCachedTokenValid P w cached = Inr True \<or>
      isCachedTokenValid P w cached = Inr False"
    by (simp add: isCachedTokenValid_def and_then_def)
  then show ?thesis by blast
qed

text \<open>
  Claim C2, as amended. For every cached record with a token and an \<^verbatim>\<open>expiresAt\<close> that is
  a number other than zero, and every current time: \<^verbatim>\<open>isCachedTokenValid\<close> returns false
  whenever the time is at or past \<^verbatim>\<open>expiresAt\<close> minus 300000 ms, and returns true whenever
  the time is before that instant and the token decodes. (The source tests
  \<^verbatim>\<open>cachedToken.expiresAt && ...\<close>, so the number zero counts as no expiry at all.)
\<close>

theorem isCachedTokenValid_buffer:
  assumes "get_prop cached ''jwt'' = Inr jwt" and "truthy jwt"
    and "get_prop cached ''expiresAt'' = Inr (JNum e)" and "e \<noteq> 0"
  shows "isCachedTokenValid P w cached =
           Inr (clock w < e - 300000 \<and> decodeJWT P jwt \<noteq> Inr None)"
proof -
  from assms(1,2) have c: "truthy cached"
    by (rule get_prop_truthy)
  obtain r where r: "decodeJWT P jwt = Inr r"
    using decodeJWT_returns by blast
  show ?thesis
    using assms c r
    by (auto simp: isCachedTokenValid_def and_then_def num_ge_def of_number_def bufferTime_def)
qed

text \<open>
  The record of the samples expires at 2000000000000: at 1999999700000, the boundary,
  it is not valid; one millisecond earlier it is.
\<close>

theorem isCachedTokenValid_buffer_witness:
  "isCachedTokenValid node_sample (world_2023\<lparr>clock := 1999999700000\<rparr>) record_2033 = Inr False \<and>
   isCachedTokenValid node_sample (world_2023\<lparr>clock := 1999999699999\<rparr>) record_2033 = Inr True"
  using isCachedTokenValid_buffer [of record_2033 "JStr token_2033" 2000000000000 node_sample
          "world_2023\<lparr>clock := 1999999700000\<rparr>"]
        isCachedTokenValid_buffer [of record_2033 "JStr token_2033" 2000000000000 node_sample
          "world_2023\<lparr>clock := 1999999699999\<rparr>"]
  by (simp add: record_2033_def decode_token_2033 world_2023_def tokens_nonempty)

text \<open>
  Claim C2 as stated fails where \<^verbatim>\<open>expiresAt\<close> is the number zero: the record is not null
  there, the time 1700000000000 is past \<open>0 - 300000\<close>, and \<^verbatim>\<open>isCachedTokenValid\<close> returns
  true.
\<close>

theorem isCachedTokenValid_zero_counterexample:
  "clock world_2023 \<ge> 0 - 300000 \<and>
   isCachedTokenValid node_sample world_2023
     (JObj [(''jwt'', JStr token_no_exp), (''expiresAt'', JNum 0)]) = Inr True"
  by (simp add: isCachedTokenValid_def and_then_def decode_token_no_exp world_2023_def
      tokens_nonempty)

text \<open>
  Claim C10. A cached record whose \<^verbatim>\<open>expiresAt\<close> is \<^verbatim>\<open>null\<close> or absent and whose token decodes
  is valid at every time. When the payload of that token has no \<^verbatim>\<open>exp\<close>, which is when
  \<^verbatim>\<open>getTokenExpiration\<close> returns \<^verbatim>\<open>null\<close> for it, \<^verbatim>\<open>isJWTExpired\<close> reports the same token as
  expired.
\<close>

theorem valid_without_expiry:
  assumes "get_prop cached ''jwt'' = Inr jwt" and "decodeJWT P jwt = Inr (Some d)"
    and "get_prop cached ''expiresAt'' = Inr x" and "x = JNull \<or> x = JUndefined"
  shows "isCachedTokenValid P w cached = Inr True \<and>
         (get_prop (payload d) ''exp'' = Inr JUndefined \<longrightarrow>
            isJWTExpired P w jwt = Inr True \<and> getTokenExpiration P jwt = Inr JNull)"
proof -
  from assms(2) have j: "truthy jwt"
    by (rule decodeJWT_Some_truthy)
  with assms(1) have c: "truthy cached"
    by (rule get_prop_truthy)
  have 1: "isCachedTokenValid P w cached = Inr True"
    using assms c j by (auto simp: isCachedTokenValid_def and_then_def)
  have 2: "isJWTExpired P w jwt = Inr True" "getTokenExpiration P jwt = Inr JNull"
    if "get_prop (payload d) ''exp'' = Inr JUndefined"
    using that assms(2)
    by (simp_all add: isJWTExpired_def isJWTExpired_try_def getTokenExpiration_def
        getTokenExpiration_try_def and_then_def catch_all_def)
  from 1 2 show ?thesis by blast
qed

theorem valid_without_expiry_witness:
  "isCachedTokenValid node_sample world_2023
     (JObj [(''jwt'', JStr token_no_exp), (''expiresAt'', JNull)]) = Inr True \<and>
   isJWTExpired node_sample world_2023 (JStr token_no_exp) = Inr True \<and>
   getTokenExpiration node_sample (JStr token_no_exp) = Inr JNull"
  using valid_without_expiry [of "JObj [(''jwt'', JStr token_no_exp), (''expiresAt'', JNull)]"
          "JStr token_no_exp" node_sample
          "\<lparr>header = JObj [], payload = JObj [], signature = ''c2ln''\<rparr>" JNull world_2023]
  by (simp add: decode_token_no_exp)

text \<open>
  What \<^verbatim>\<open>isJWTExpired\<close> returns: true if the token does not decode, or if the payload has
  no expiry claim, and otherwise whether the expiry is strictly less than the current
  time in whole seconds.
\<close>

lemma isJWTExpired_cases:
  "(decodeJWT P token = Inr None \<longrightarrow> isJWTExpired P w token = Inr True) \<and>
   (decodeJWT P token = Inr (Some d) \<and> get_prop (payload d) ''exp'' = Inr JUndefined \<longrightarrow>
      isJWTExpired P w token = Inr True) \<and>
   (decodeJWT P token = Inr (Some d) \<and> get_prop (payload d) ''exp'' = Inr (JNum e) \<and> e \<noteq> 0 \<longrightarrow>
      isJWTExpired P w token = Inr (e < clock w div 1000))"
  by (simp add: isJWTExpired_def isJWTExpired_try_def and_then_def catch_all_def lt_num_def)

lemma isJWTExpired_samples:
  "isJWTExpired node_sample (world_2023\<lparr>clock := 2000000001000\<rparr>) (JStr token_2033) = Inr True \<and>
   isJWTExpired node_sample world_2023 (JStr ''no-token'') = Inr True \<and>
   isJWTExpired node_sample world_2023 (JStr token_no_exp) = Inr True"
  using isJWTExpired_cases [of node_sample "JStr token_2033"
          "world_2023\<lparr>clock := 2000000001000\<rparr>"
          "\<lparr>header = JObj [], payload = JObj [(''exp'', JNum 2000000000)], signature = ''c2ln''\<rparr>"
          2000000000]
        isJWTExpired_cases [of node_sample "JStr ''no-token''" world_2023]
        isJWTExpired_cases [of node_sample "JStr token_no_exp" world_2023
          "\<lparr>header = JObj [], payload = JObj [], signature = ''c2ln''\<rparr>"]
  by (simp add: decode_token_2033 decode_token_no_exp world_2023_def decodeJWT_not_three
      split_dot_def)

text \<open>
  Claim C5, what the code does at the boundary. The token of the samples has the expiry
  claim 2000000000. During that whole second, from 2000000000000 ms to 2000000000999 ms,
  the current second equals the claim and \<^verbatim>\<open>isJWTExpired\<close> returns false, where the claim
  has the token reported as expired. At the same instants the hard-expiry test of
  \<^verbatim>\<open>isCachedTokenValid\<close>, \<^verbatim>\<open>Date.now() >= cachedToken.expiresAt\<close>, holds for the expiry
  \<^verbatim>\<open>getTokenExpiration\<close> derives from the same token, and the record is not valid.
\<close>

theorem isJWTExpired_boundary:
  "clock (world_2023\<lparr>clock := 2000000000999\<rparr>) div 1000 = 2000000000 \<and>
   isJWTExpired node_sample (world_2023\<lparr>clock := 2000000000999\<rparr>) (JStr token_2033) = Inr False \<and>
   isJWTExpired node_sample (world_2023\<lparr>clock := 2000000000000\<rparr>) (JStr token_2033) = Inr False \<and>
   getTokenExpiration node_sample (JStr token_2033) = Inr (JNum 2000000000000) \<and>
   num_ge node_sample (clock (world_2023\<lparr>clock := 2000000000000\<rparr>)) (JNum 2000000000000) \<and>
   isCachedTokenValid node_sample (world_2023\<lparr>clock := 2000000000000\<rparr>) record_2033 = Inr False"
  by (simp add: isJWTExpired_def isJWTExpired_try_def and_then_def catch_all_def lt_num_def
      getTokenExpiration_def getTokenExpiration_try_def of_number_def num_ge_def
      isCachedTokenValid_def record_2033_def tokens_nonempty
      decode_token_2033 world_2023_def)

section \<open>The cache store\<close>


lemma getTokenExpiration_returns: "\<exists>v. getTokenExpiration P jwt = Inr v"
  by (simp add: getTokenExpiration_def catch_all_def split: sum.splits)

lemma cacheData_dir: "cacheData P (w\<lparr>cache_dir := b\<rparr>) td = cacheData P w td"
  by (simp add: cacheData_def)

lemma cacheData_returns:
  assumes "truthy td"
  shows "\<exists>a b c d e x. cacheData P w td =
     Inr (JObj [(''jwt'', a), (''isNIEUser'', b), (''isLDAPEnabled'', c),
                (''hasGroupAccess'', d), (''key'', e), (''cachedAt'', JNum (clock w)),
                (''expiresAt'', x)]) \<and>
     get_prop td ''jwt'' = Inr a \<and> get_prop td ''isNIEUser'' = Inr b \<and>
     get_prop td ''isLDAPEnabled'' = Inr c \<and> get_prop td ''hasGroupAccess'' = Inr d \<and>
     get_prop td ''key'' = Inr e \<and> getTokenExpiration P a = Inr x"
proof -
  obtain a where a: "get_prop td ''jwt'' = Inr a" using assms get_prop_of_truthy by blast
  obtain b where b: "get_prop td ''isNIEUser'' = Inr b" using assms get_prop_of_truthy by blast
  obtain c where c: "get_prop td ''isLDAPEnabled'' = Inr c" using assms get_prop_of_truthy by blast
  obtain d where d: "get_prop td ''hasGroupAccess'' = Inr d" using assms get_prop_of_truthy by blast
  obtain e where e: "get_prop td ''key'' = Inr e" using assms get_prop_of_truthy by blast
  obtain x where x: "getTokenExpiration P a = Inr x" using getTokenExpiration_returns by blast
  from a b c d e x show ?thesis
    by (simp add: cacheData_def and_then_def)
qed


lemma saveTokenToCache_eq:
  assumes "cacheData P w td = Inr cd" and "write_fault w = None"
  shows "saveTokenToCache P td w =
     (Inr True, w\<lparr>cache_dir := True, cache_file := Some (JSON_stringify P cd), cachedToken := cd\<rparr>)"
proof -
  have "cacheData P (w\<lparr>cache_dir := True\<rparr>) td = Inr cd"
    using assms by (simp add: cacheData_dir)
  with assms show ?thesis
    by (simp add: saveTokenToCache_def saveTokenToCache_try_def try_catch_def
        ensureCacheDirectory_def existsSync_dir_def mkdirSync_def writeFileSync_def)
qed

lemma saveTokenToCache_fault:
  assumes "write_fault w = Some e"
  shows "saveTokenToCache P td w = (Inr False, w)"
  using assms
  by (simp add: saveTokenToCache_def saveTokenToCache_try_def try_catch_def
      ensureCacheDirectory_def existsSync_dir_def mkdirSync_def writeFileSync_def
      split: sum.splits)



lemma saveTokenToCache_returns:
  "\<exists>saved w'. saveTokenToCache P td w = (Inr saved, w') \<and> acquisitions w' = acquisitions w"
proof (cases "write_fault w")
  case (Some f)
  then have "saveTokenToCache P td w = (Inr False, w)" by (simp add: saveTokenToCache_fault)
  then show ?thesis by blast
next
  case None
  show ?thesis
  proof (cases "cacheData P w td")
    case (Inl e)
    then have "cacheData P (w\<lparr>cache_dir := True\<rparr>) td = Inl e"
      by (simp add: cacheData_dir)
    with Inl None show ?thesis
      by (auto simp: saveTokenToCache_def saveTokenToCache_try_def try_catch_def
          ensureCacheDirectory_def existsSync_dir_def mkdirSync_def writeFileSync_def)
  next
    case (Inr cd)
    with None show ?thesis by (auto simp: saveTokenToCache_eq)
  qed
qed


lemma clearTokenCache_eq:
  "clearTokenCache w = (Inr (), w\<lparr>cache_file := None, cachedToken := JNull\<rparr>)"
  by (cases "cache_file w")
     (simp_all add: clearTokenCache_def clearTokenCache_try_def try_catch_def existsSync_file_def
       unlinkSync_def)

lemma loadTokenFromCache_absent:
  "cache_file w = None \<Longrightarrow> loadTokenFromCache P w = (Inr JNull, w)"
  by (simp add: loadTokenFromCache_def loadTokenFromCache_try_def try_catch_def existsSync_file_def)

lemma loadTokenFromCache_parsed:
  "cache_file w = Some c \<Longrightarrow> JSON_parse P c = Some v \<Longrightarrow>
   loadTokenFromCache P w = (Inr v, w\<lparr>cachedToken := v\<rparr>)"
  by (simp add: loadTokenFromCache_def loadTokenFromCache_try_def try_catch_def existsSync_file_def
      readFileSync_def)

lemma loadTokenFromCache_corrupt:
  "cache_file w = Some c \<Longrightarrow> JSON_parse P c = None \<Longrightarrow>
   loadTokenFromCache P w = (Inr JNull, w\<lparr>cache_file := None, cachedToken := JNull\<rparr>)"
  by (simp add: loadTokenFromCache_def loadTokenFromCache_try_def try_catch_def existsSync_file_def
      readFileSync_def clearTokenCache_eq then_return_def)

lemma loadTokenFromCache_returns:
  "\<exists>v w1. loadTokenFromCache P w = (Inr v, w1) \<and> acquisitions w1 = acquisitions w \<and>
     clock w1 = clock w \<and> write_fault w1 = write_fault w"
proof (cases "cache_file w")
  case None
  then show ?thesis by (simp add: loadTokenFromCache_absent)
next
  case (Some c)
  then show ?thesis
    by (cases "JSON_parse P c") (simp_all add: loadTokenFromCache_corrupt loadTokenFromCache_parsed)
qed





lemma expiration_token_2033:
  "getTokenExpiration node_sample (JStr token_2033) = Inr (JNum 2000000000000)"
  by (simp add: getTokenExpiration_def getTokenExpiration_try_def and_then_def catch_all_def
      of_number_def decode_token_2033)










lemma world_2023_fields: "acquisitions world_2023 = 0" "clock world_2023 = 1700000000000"
  "write_fault world_2023 = None" "cache_file world_2023 = None"
  by (simp_all add: world_2023_def)



section \<open>The access gate\<close>


lemma performSSOLogin_returns:
  "\<exists>td w2. performSSOLogin N P b w = (Inr td, w2) \<and> acquisitions w2 = Suc (acquisitions w) \<and>
     cache_file w2 = cache_file w \<and> cache_dir w2 = cache_dir w \<and>
     cachedToken w2 = cachedToken w \<and> write_fault w2 = write_fault w"
  by (auto simp: performSSOLogin_def try_catch_def performSSOLogin_try_def Let_def
      split: http_reply.splits option.splits sum.splits)

lemma isCachedTokenValid_True_truthy:
  "isCachedTokenValid P w c = Inr True \<Longrightarrow> truthy c"
  by (cases "truthy c") (simp_all add: isCachedTokenValid_def)

lemma getValidToken_cached:
  assumes "loadTokenFromCache P w = (Inr cached, w1)"
    and "isCachedTokenValid P w1 cached = Inr True"
  shows "\<exists>jwt. get_prop cached ''jwt'' = Inr jwt \<and>
     getValidToken N P b w = (Inr cached, w1\<lparr>jwtToken := jwt, lastResponse := cached\<rparr>)"
proof -
  from assms(2) have "truthy cached"
    by (rule isCachedTokenValid_True_truthy)
  then obtain jwt where "get_prop cached ''jwt'' = Inr jwt"
    using get_prop_of_truthy by blast
  with assms show ?thesis
    by (simp add: getValidToken_def)
qed

lemma getValidToken_fresh:
  assumes "loadTokenFromCache P w = (Inr cached, w1)"
    and "isCachedTokenValid P w1 cached = Inr False"
    and "performSSOLogin N P b w1 = (Inr td, w2)"
    and "truthy td"
    and "saveTokenToCache P td w2 = (Inr saved, w3)"
  shows "getValidToken N P b w = (Inr td, w3)"
  using assms by (simp add: getValidToken_def)

lemma getValidToken_failed:
  assumes "loadTokenFromCache P w = (Inr cached, w1)"
    and "isCachedTokenValid P w1 cached = Inr False"
    and "performSSOLogin N P b w1 = (Inr td, w2)"
    and "\<not> truthy td"
  shows "getValidToken N P b w = (Inr JNull, w2)"
  using assms by (simp add: getValidToken_def)

lemma getValidToken_returns: "\<exists>td w1. getValidToken N P b w = (Inr td, w1)"
proof -
  obtain cached w1 where ld: "loadTokenFromCache P w = (Inr cached, w1)"
    using loadTokenFromCache_returns by blast
  obtain valid where v: "isCachedTokenValid P w1 cached = Inr valid"
    using isCachedTokenValid_returns by blast
  obtain td w2 where sso: "performSSOLogin N P b w1 = (Inr td, w2)"
    using performSSOLogin_returns by blast
  obtain saved w3 where sv: "saveTokenToCache P td w2 = (Inr saved, w3)"
    using saveTokenToCache_returns by blast
  show ?thesis
  proof (cases valid)
    case True
    with v have "isCachedTokenValid P w1 cached = Inr True"
      by simp
    from getValidToken_cached [OF ld this, of N b] show ?thesis
      by blast
  next
    case False
    with v have v': "isCachedTokenValid P w1 cached = Inr False"
      by simp
    show ?thesis
    proof (cases "truthy td")
      case True
      from getValidToken_fresh [OF ld v' sso True sv] show ?thesis
        by blast
    next
      case False
      from getValidToken_failed [OF ld v' sso False] show ?thesis
        by blast
    qed
  qed
qed

text \<open>
  Claim C3, as the code has it. \<^verbatim>\<open>getValidToken\<close> first loads the cache, which returns a
  record or \<^verbatim>\<open>null\<close>, and asks \<^verbatim>\<open>isCachedTokenValid\<close>. When the answer is true it returns the
  loaded record and \<^verbatim>\<open>performSSOLogin\<close> is not called. Otherwise \<^verbatim>\<open>performSSOLogin\<close> is called
  exactly once. When it returns nothing, \<^verbatim>\<open>getValidToken\<close> returns \<^verbatim>\<open>null\<close>. When it returns
  token data (a truthy value), \<^verbatim>\<open>getValidToken\<close> calls \<^verbatim>\<open>saveTokenToCache\<close> on it and returns
  the data whatever the save answers: if nothing stands in the way of the write, the save
  answers true and the record built from the data is in the cache file (and in
  \<^verbatim>\<open>cachedToken\<close>) when \<^verbatim>\<open>getValidToken\<close> returns; if the directory cannot be created or the
  file cannot be written, the save answers false, the cache file and \<^verbatim>\<open>cachedToken\<close> are
  what they were after the load, and the data is returned all the same.
\<close>

theorem getValidToken_calls_save:
  "\<exists>cached w1 valid.
     loadTokenFromCache P w = (Inr cached, w1) \<and>
     isCachedTokenValid P w1 cached = Inr valid \<and>
     (if valid then
        fst (getValidToken N P b w) = Inr cached \<and>
        acquisitions (snd (getValidToken N P b w)) = acquisitions w
      else
        \<exists>tokenData w2.
          performSSOLogin N P b w1 = (Inr tokenData, w2) \<and>
          acquisitions (snd (getValidToken N P b w)) = Suc (acquisitions w) \<and>
          (if truthy tokenData then
             fst (getValidToken N P b w) = Inr tokenData \<and>
             (case write_fault w of
                None \<Rightarrow>
                  saveTokenToCache P tokenData w2 = (Inr True, snd (getValidToken N P b w)) \<and>
                  (\<exists>cd. cacheData P w2 tokenData = Inr cd \<and>
                        cache_file (snd (getValidToken N P b w)) = Some (JSON_stringify P cd) \<and>
                        cachedToken (snd (getValidToken N P b w)) = cd)
              | Some e \<Rightarrow>
                  saveTokenToCache P tokenData w2 = (Inr False, w2) \<and>
                  snd (getValidToken N P b w) = w2 \<and>
                  cache_file w2 = cache_file w1 \<and> cachedToken w2 = cachedToken w1)
           else getValidToken N P b w = (Inr JNull, w2)))"
proof -
  obtain cached w1 where ld: "loadTokenFromCache P w = (Inr cached, w1)"
    and a1: "acquisitions w1 = acquisitions w" and f1: "write_fault w1 = write_fault w"
    using loadTokenFromCache_returns by blast
  obtain valid where v: "isCachedTokenValid P w1 cached = Inr valid"
    using isCachedTokenValid_returns by blast
  show ?thesis
  proof (cases valid)
    case True
    with v have v': "isCachedTokenValid P w1 cached = Inr True"
      by simp
    from getValidToken_cached [OF ld v', of N b] obtain jwt where
      "getValidToken N P b w = (Inr cached, w1\<lparr>jwtToken := jwt, lastResponse := cached\<rparr>)"
      by blast
    with ld v a1 True show ?thesis
      by (intro exI [of _ cached] exI [of _ w1] exI [of _ valid]) simp
  next
    case False
    with v have v': "isCachedTokenValid P w1 cached = Inr False"
      by simp
    obtain td w2 where sso: "performSSOLogin N P b w1 = (Inr td, w2)"
      and a2: "acquisitions w2 = Suc (acquisitions w1)"
      and c2: "cache_file w2 = cache_file w1" and m2: "cachedToken w2 = cachedToken w1"
      and f2: "write_fault w2 = write_fault w1"
      using performSSOLogin_returns by blast
    show ?thesis
    proof (cases "truthy td")
      case t: True
      show ?thesis
      proof (cases "write_fault w")
        case None
        from t obtain cd where cd: "cacheData P w2 td = Inr cd"
          using cacheData_returns by blast
        from None f1 f2 have "write_fault w2 = None" by simp
        from saveTokenToCache_eq [OF cd this] have sv: "saveTokenToCache P td w2 =
          (Inr True, w2\<lparr>cache_dir := True, cache_file := Some (JSON_stringify P cd),
             cachedToken := cd\<rparr>)" .
        from getValidToken_fresh [OF ld v' sso t sv] have "getValidToken N P b w =
          (Inr td, w2\<lparr>cache_dir := True, cache_file := Some (JSON_stringify P cd),
             cachedToken := cd\<rparr>)" .
        with ld v False sso a1 a2 t None cd sv show ?thesis
          by (intro exI [of _ cached] exI [of _ w1] exI [of _ valid]) simp
      next
        case (Some e)
        with f1 f2 have "write_fault w2 = Some e" by simp
        then have sv: "saveTokenToCache P td w2 = (Inr False, w2)"
          by (rule saveTokenToCache_fault)
        from getValidToken_fresh [OF ld v' sso t sv] have g: "getValidToken N P b w = (Inr td, w2)" .
        from ld v False sso a1 a2 t Some sv g c2 m2 show ?thesis
          by (intro exI [of _ cached] exI [of _ w1] exI [of _ valid]) simp
      qed
    next
      case f: False
      from getValidToken_failed [OF ld v' sso f] have "getValidToken N P b w = (Inr JNull, w2)" .
      with ld v False sso a1 a2 f show ?thesis
        by (intro exI [of _ cached] exI [of _ w1] exI [of _ valid]) simp
    qed
  qed
qed


lemma truthy_response_2033: "truthy response_2033"
  by (simp add: response_2033_def)

lemma load_sample:
  "loadTokenFromCache node_sample
     (world_2023\<lparr>cache_dir := True, cache_file := Some record_2033_text, clock := t\<rparr>) =
   (Inr record_2033,
    world_2023\<lparr>cache_dir := True, cache_file := Some record_2033_text, clock := t,
       cachedToken := record_2033\<rparr>)"
proof -
  have "JSON_parse node_sample record_2033_text = Some record_2033"
    by (simp add: node_sample_def record_2033_text_def record_soon_text_def)
  then show ?thesis
    by (simp add: loadTokenFromCache_parsed)
qed

lemma valid_sample:
  "isCachedTokenValid node_sample
     (world_2023\<lparr>cache_dir := True, cache_file := Some record_2033_text, clock := t,
        cachedToken := record_2033\<rparr>) record_2033 = Inr (t < 1999999700000)"
  by (auto simp: isCachedTokenValid_def and_then_def num_ge_def of_number_def bufferTime_def
      record_2033_def decode_token_2033 tokens_nonempty)

lemma sso_sample:
  "performSSOLogin server_2033 node_sample b w =
     (Inr response_2033,
      w\<lparr>acquisitions := Suc (acquisitions w), clock := clock w + 120,
         jwtToken := JStr token_2033\<rparr>)"
  by (simp add: performSSOLogin_def performSSOLogin_try_def try_catch_def server_2033_def
      response_2033_def tokens_nonempty displayJWTInfo_def getJWTInfo_def and_then_def
      decode_token_2033 isJWTExpired_def isJWTExpired_try_def catch_all_def Let_def)

lemma load_empty_sample:
  "loadTokenFromCache node_sample (world_2023\<lparr>write_fault := f\<rparr>) =
     (Inr JNull, world_2023\<lparr>write_fault := f\<rparr>)"
  by (simp add: loadTokenFromCache_absent world_2023_fields)

lemma invalid_null: "isCachedTokenValid P w JNull = Inr False"
  by (simp add: isCachedTokenValid_def)

text \<open>
  The two scenarios of the specification, with the record of the samples (expiry
  2000000000000) in the cache file: 600000 ms before the expiry the cached record is
  returned and no call is made; 100000 ms before it, one call is made, its response is
  returned and the record kept was built at the time of the save. And in a state with no
  cache and no permission to create the directory, the response is returned and there
  is no cache file.
\<close>

theorem getValidToken_calls_save_witness:
  "fst (getValidToken server_2033 node_sample (JStr ''secret'')
          (world_2023\<lparr>cache_dir := True, cache_file := Some record_2033_text,
             clock := 1999999400000\<rparr>)) = Inr record_2033 \<and>
   acquisitions (snd (getValidToken server_2033 node_sample (JStr ''secret'')
          (world_2023\<lparr>cache_dir := True, cache_file := Some record_2033_text,
             clock := 1999999400000\<rparr>))) = 0 \<and>
   fst (getValidToken server_2033 node_sample (JStr ''secret'')
          (world_2023\<lparr>cache_dir := True, cache_file := Some record_2033_text,
             clock := 1999999900000\<rparr>)) = Inr response_2033 \<and>
   acquisitions (snd (getValidToken server_2033 node_sample (JStr ''secret'')
          (world_2023\<lparr>cache_dir := True, cache_file := Some record_2033_text,
             clock := 1999999900000\<rparr>))) = 1 \<and>
   get_prop (cachedToken (snd (getValidToken server_2033 node_sample (JStr ''secret'')
          (world_2023\<lparr>cache_dir := True, cache_file := Some record_2033_text,
             clock := 1999999900000\<rparr>)))) ''cachedAt'' = Inr (JNum 1999999900120) \<and>
   fst (getValidToken server_2033 node_sample (JStr ''secret'')
          (world_2023\<lparr>write_fault := Some EACCES\<rparr>)) = Inr response_2033 \<and>
   cache_file (snd (getValidToken server_2033 node_sample (JStr ''secret'')
          (world_2023\<lparr>write_fault := Some EACCES\<rparr>))) = None"
  using getValidToken_calls_save [of node_sample
          "world_2023\<lparr>cache_dir := True, cache_file := Some record_2033_text,
             clock := 1999999400000\<rparr>" server_2033 "JStr ''secret''"]
        getValidToken_calls_save [of node_sample
          "world_2023\<lparr>cache_dir := True, cache_file := Some record_2033_text,
             clock := 1999999900000\<rparr>" server_2033 "JStr ''secret''"]
        getValidToken_calls_save [of node_sample
          "world_2023\<lparr>write_fault := Some EACCES\<rparr>" server_2033 "JStr ''secret''"]
  by (auto simp: load_sample valid_sample sso_sample world_2023_fields truthy_response_2033
      cacheData_def and_then_def response_2033_def expiration_token_2033
      load_empty_sample invalid_null)

text \<open>
  Claim C3 as the specification words it does not hold: when \<^verbatim>\<open>~/.n8n-desktop\<close> exists and
  is not a directory, the write fails with ENOTDIR; \<^verbatim>\<open>getValidToken\<close> still makes its one
  call and returns the fresh response, while there is no cache file (and no cached token
  in memory) when it returns, and the next load finds nothing.
\<close>

theorem getValidToken_unsaved_counterexample:
  "fst (getValidToken server_2033 node_sample (JStr ''secret'')
          (world_2023\<lparr>cache_dir := True, write_fault := Some ENOTDIR\<rparr>)) = Inr response_2033 \<and>
   acquisitions (snd (getValidToken server_2033 node_sample (JStr ''secret'')
          (world_2023\<lparr>cache_dir := True, write_fault := Some ENOTDIR\<rparr>))) = 1 \<and>
   cache_file (snd (getValidToken server_2033 node_sample (JStr ''secret'')
          (world_2023\<lparr>cache_dir := True, write_fault := Some ENOTDIR\<rparr>))) = None \<and>
   cachedToken (snd (getValidToken server_2033 node_sample (JStr ''secret'')
          (world_2023\<lparr>cache_dir := True, write_fault := Some ENOTDIR\<rparr>))) = JNull \<and>
   fst (loadTokenFromCache node_sample (snd (getValidToken server_2033 node_sample (JStr ''secret'')
          (world_2023\<lparr>cache_dir := True, write_fault := Some ENOTDIR\<rparr>)))) = Inr JNull"
proof -
  let ?w = "world_2023\<lparr>cache_dir := True, write_fault := Some ENOTDIR\<rparr>"
  let ?w2 = "?w\<lparr>acquisitions := Suc (acquisitions ?w), clock := clock ?w + 120,
         jwtToken := JStr token_2033\<rparr>"
  have ld: "loadTokenFromCache node_sample ?w = (Inr JNull, ?w)"
    by (simp add: loadTokenFromCache_absent world_2023_fields)
  have v: "isCachedTokenValid node_sample ?w JNull = Inr False"
    by (simp add: isCachedTokenValid_def)
  have sso: "performSSOLogin server_2033 node_sample (JStr ''secret'') ?w = (Inr response_2033, ?w2)"
    by (rule sso_sample)
  have sv: "saveTokenToCache node_sample response_2033 ?w2 = (Inr False, ?w2)"
    by (rule saveTokenToCache_fault [of _ ENOTDIR]) simp
  have g: "getValidToken server_2033 node_sample (JStr ''secret'') ?w = (Inr response_2033, ?w2)"
    by (rule getValidToken_fresh [OF ld v sso truthy_response_2033 sv])
  show ?thesis
    by (simp add: g loadTokenFromCache_absent world_2023_fields) (simp add: world_2023_def)
qed

lemma hasRequiredAccess_returns: "truthy td \<Longrightarrow> \<exists>g. hasRequiredAccess td = Inr g"
proof -
  assume t: "truthy td"
  obtain a where a: "get_prop td ''hasGroupAccess'' = Inr a" using t get_prop_of_truthy by blast
  obtain b where b: "get_prop td ''isNIEUser'' = Inr b" using t get_prop_of_truthy by blast
  obtain c where c: "get_prop td ''isLDAPEnabled'' = Inr c" using t get_prop_of_truthy by blast
  from a b c show ?thesis
    by (auto simp: hasRequiredAccess_def and_then_def)
qed

text \<open>
  Claim C1, what the code does. With \<^verbatim>\<open>exitOnFailure = true\<close>, \<^verbatim>\<open>initialize\<close> ends no process
  with any exit code: the calls \<^verbatim>\<open>this.exitProcess(1)\<close>, \<^verbatim>\<open>(2)\<close>, \<^verbatim>\<open>(3)\<close> and \<^verbatim>\<open>(4)\<close> throw a
  TypeError. On the empty bearer token the TypeError leaves \<^verbatim>\<open>initialize\<close> with the state
  untouched (no cache access, no network call). On every other path \<^verbatim>\<open>initialize\<close>
  returns true when a credential with one of the three flags was obtained, and throws a
  TypeError otherwise (no credential, or a credential with no flag), the same exception
  in all cases.
\<close>

theorem initialize_exit_paths_throw:
  "initialize N P (JStr []) True w = (Inl TypeError, w) \<and>
   fst (initialize N P bearer True w) =
     (if truthy bearer \<and>
         (\<exists>td. fst (getValidToken N P bearer w) = Inr td \<and> truthy td \<and>
               hasRequiredAccess td = Inr True)
      then Inr True else Inl TypeError)"
proof (intro conjI)
  show "initialize N P (JStr []) True w = (Inl TypeError, w)"
    by (simp add: initialize_def exitProcess_def then_return_def)
  obtain td w1 where g: "getValidToken N P bearer w = (Inr td, w1)"
    using getValidToken_returns by blast
  show "fst (initialize N P bearer True w) =
     (if truthy bearer \<and>
         (\<exists>td. fst (getValidToken N P bearer w) = Inr td \<and> truthy td \<and>
               hasRequiredAccess td = Inr True)
      then Inr True else Inl TypeError)"
  proof (cases "truthy bearer")
    case False
    then show ?thesis
      by (simp add: initialize_def exitProcess_def then_return_def)
  next
    case True
    show ?thesis
    proof (cases "truthy td")
      case f: False
      with True g show ?thesis
        by (simp add: initialize_def initialize_try_def try_catch_def exitProcess_def
            then_return_def)
    next
      case t: True
      then obtain granted where "hasRequiredAccess td = Inr granted"
        using hasRequiredAccess_returns by blast
      with True g t show ?thesis
        by (cases granted)
           (simp_all add: initialize_def initialize_try_def try_catch_def exitProcess_def
             then_return_def Let_def)
    qed
  qed
qed

section \<open>The readiness gate\<close>


lemma check_loop_ready:
  "r k = Status 200 \<Longrightarrow> check_loop r d i k t = Some (True, t + d k)"
  by (subst check_loop.simps) simp

lemma check_loop_retry:
  "r k \<noteq> Status 200 \<Longrightarrow> check_loop r d i k t = check_loop r d i (Suc k) (t + d k + i)"
  by (subst check_loop.simps) simp

lemma upt_from: "[k..<Suc (Suc (k + n))] = k # [Suc k..<Suc (Suc (k + n))]"
  by (simp add: upt_conv_Cons)

lemma check_loop_complete:
  "r (k + n) = Status 200 \<Longrightarrow> (\<forall>j<n. r (k + j) \<noteq> Status 200) \<Longrightarrow>
   check_loop r d i k t = Some (True, t + sum_list (map d [k..<Suc (k + n)]) + n * i)"
proof (induction n arbitrary: k t)
  case 0
  then show ?case by (simp add: check_loop_ready)
next
  case (Suc n)
  from Suc.prems(2) have nk: "r k \<noteq> Status 200"
    by (metis add.right_neutral zero_less_Suc)
  have a: "r (Suc k + n) = Status 200"
    using Suc.prems(1) by simp
  have b: "\<forall>j<n. r (Suc k + j) \<noteq> Status 200"
  proof (intro allI impI)
    fix j assume "j < n"
    then have "Suc j < Suc n" by simp
    with Suc.prems(2) have "r (k + Suc j) \<noteq> Status 200" by blast
    then show "r (Suc k + j) \<noteq> Status 200" by simp
  qed
  from Suc.IH [OF a b, of "t + d k + i"] nk show ?case
    by (simp add: check_loop_retry upt_from del: upt_Suc)
qed

lemma check_loop_sound:
  assumes "check_loop r d i k t = Some y"
  shows "\<exists>n. r (k + n) = Status 200 \<and> (\<forall>j<n. r (k + j) \<noteq> Status 200) \<and>
       y = (True, t + sum_list (map d [k..<Suc (k + n)]) + n * i)"
proof (rule check_loop.raw_induct [where P = "\<lambda>r d i k t y.
         \<exists>n. r (k + n) = Status 200 \<and> (\<forall>j<n. r (k + j) \<noteq> Status 200) \<and>
             y = (True, t + sum_list (map d [k..<Suc (k + n)]) + n * i)", OF _ assms])
  fix cl :: "(nat \<Rightarrow> poll_result) \<Rightarrow> (nat \<Rightarrow> nat) \<Rightarrow> nat \<Rightarrow> nat \<Rightarrow> nat \<Rightarrow> (bool \<times> nat) option"
    and r d i k t y
  assume IH: "\<And>r d i k t y. cl r d i k t = Some y \<Longrightarrow>
         \<exists>n. r (k + n) = Status 200 \<and> (\<forall>j<n. r (k + j) \<noteq> Status 200) \<and>
             y = (True, t + sum_list (map d [k..<Suc (k + n)]) + n * i)"
    and eq: "(if r k = Status 200 then Some (True, t + d k)
              else cl r d i (Suc k) (t + d k + i)) = Some y"
  show "\<exists>n. r (k + n) = Status 200 \<and> (\<forall>j<n. r (k + j) \<noteq> Status 200) \<and>
             y = (True, t + sum_list (map d [k..<Suc (k + n)]) + n * i)"
  proof (cases "r k = Status 200")
    case True
    with eq have "y = (True, t + d k)" by simp
    with True show ?thesis
      by (intro exI [of _ 0]) simp
  next
    case False
    with eq have "cl r d i (Suc k) (t + d k + i) = Some y" by simp
    from IH [OF this] obtain n where n: "r (Suc k + n) = Status 200"
      "\<forall>j<n. r (Suc k + j) \<noteq> Status 200"
      "y = (True, t + d k + i + sum_list (map d [Suc k..<Suc (Suc k + n)]) + n * i)"
      by blast
    have "\<forall>j<Suc n. r (k + j) \<noteq> Status 200"
    proof (intro allI impI)
      fix j assume j: "j < Suc n"
      show "r (k + j) \<noteq> Status 200"
      proof (cases j)
        case 0
        with False show ?thesis by simp
      next
        case (Suc j')
        with j n(2) have "r (Suc k + j') \<noteq> Status 200" by simp
        with Suc show ?thesis by simp
      qed
    qed
    moreover have "r (k + Suc n) = Status 200"
      using n(1) by simp
    moreover have "y = (True, t + sum_list (map d [k..<Suc (k + Suc n)]) + Suc n * i)"
      using n(3) by (simp add: upt_from del: upt_Suc)
    ultimately show ?thesis by blast
  qed
qed

lemma check_Some:
  "check net i t0 url = Some y \<Longrightarrow>
   \<exists>k. response net url k = Status 200 \<and> (\<forall>j<k. response net url j \<noteq> Status 200) \<and>
       y = (True, poll_time net i t0 url k)"
  using check_loop_sound [of "response net url" "duration net url" i 0 t0 y]
  by (simp add: check_def poll_time_def)

lemma check_ready:
  "response net url k = Status 200 \<Longrightarrow> (\<forall>j<k. response net url j \<noteq> Status 200) \<Longrightarrow>
   check net i t0 url = Some (True, poll_time net i t0 url k)"
  using check_loop_complete [of "response net url" 0 k "duration net url" i t0]
  by (simp add: check_def poll_time_def)

lemma promise_all_Some:
  "promise_all rs t = Some (vs, t') \<Longrightarrow>
   t \<le> t' \<and> length vs = length rs \<and>
   (\<forall>n<length rs. \<exists>tv. rs ! n = Some (vs ! n, tv) \<and> tv \<le> t')"
proof (induction rs t arbitrary: vs t' rule: promise_all.induct)
  case (1 t)
  then show ?case by simp
next
  case (2 rs t)
  then show ?case by simp
next
  case (3 v tv rs t)
  from "3.prems" obtain vs0 where r: "promise_all rs (max t tv) = Some (vs0, t')"
    and vs: "vs = v # vs0"
    by (auto split: option.splits)
  from "3.IH" [OF r] have ih: "max t tv \<le> t'" "length vs0 = length rs"
    "\<forall>n<length rs. \<exists>tv. rs ! n = Some (vs0 ! n, tv) \<and> tv \<le> t'"
    by auto
  have "\<exists>tv'. (Some (v, tv) # rs) ! n = Some (vs ! n, tv') \<and> tv' \<le> t'"
    if "n < length (Some (v, tv) # rs)" for n
  proof (cases n)
    case 0
    with vs ih(1) show ?thesis by simp
  next
    case (Suc m)
    with that ih(3) vs show ?thesis by simp
  qed
  with ih vs show ?case by simp
qed

lemma check_never:
  assumes "\<forall>j. response net url j \<noteq> Status 200"
  shows "check net i t0 url = None"
proof (cases "check net i t0 url")
  case None
  then show ?thesis .
next
  case (Some y)
  from check_Some [OF Some] assms show ?thesis by blast
qed

lemma promise_all_None: "None \<in> set rs \<Longrightarrow> promise_all rs t = None"
proof (induction rs t rule: promise_all.induct)
  case (1 t)
  then show ?case by simp
next
  case (2 rs t)
  then show ?case by simp
next
  case (3 v tv rs t)
  then show ?case by simp
qed

lemma promise_all_times:
  "promise_all (map (\<lambda>u. Some (True, f u)) urls) t =
     Some (replicate (length urls) True, Max (insert t (f ` set urls)))"
proof (induction urls arbitrary: t)
  case Nil
  then show ?case by simp
next
  case (Cons u us)
  have "Max (insert (max t (f u)) (f ` set us)) = Max (insert t (insert (f u) (f ` set us)))"
  proof (cases "set us = {}")
    case True
    then show ?thesis by simp
  next
    case False
    then have "f ` set us \<noteq> {}" by simp
    then show ?thesis
      by (simp add: max.assoc)
  qed
  with Cons.IH [of "max t (f u)"] show ?case
    by simp
qed

text \<open>
  Claim C9. The check of a URL depends on the answers to that URL alone. If for every URL
  of the set the poll \<open>k url\<close> is the first one answered with status 200 (each earlier
  poll ended in a transport error or another status), then \<^verbatim>\<open>waitForUrls\<close> with the
  interval \<open>n\<close> resolves with \<^verbatim>\<open>true\<close> for every URL, at the latest of the times at which
  the checks return: the check of a URL returns after its \<open>k url + 1\<close> requests and
  \<open>k url\<close> pauses of \<open>n\<close> milliseconds, one after each failed poll. Without an interval
  the wait is the one with 250 ms. If some URL of the set is never answered with status
  200, the wait never resolves. And whenever the wait resolves, every URL of the set has
  been answered with status 200, at a time that is not after the time of the resolution.
\<close>

theorem waitForUrls_exact:
  "((\<forall>url\<in>set urls. response net url (k url) = Status 200 \<and>
        (\<forall>j<k url. response net url j \<noteq> Status 200)) \<longrightarrow>
      waitForUrls net urls (Some n) t0 =
        Some (replicate (length urls) True,
              Max (insert t0 ((\<lambda>url. t0 + sum_list (map (duration net url) [0..<Suc (k url)]) +
                                     k url * n) ` set urls)))) \<and>
   waitForUrls net urls None t0 = waitForUrls net urls (Some 250) t0 \<and>
   ((\<exists>url\<in>set urls. \<forall>j. response net url j \<noteq> Status 200) \<longrightarrow>
      waitForUrls net urls interval t0 = None) \<and>
   (waitForUrls net urls interval t0 = Some (vs, t) \<longrightarrow>
      (\<forall>url\<in>set urls. \<exists>m. response net url m = Status 200 \<and>
         (\<forall>j<m. response net url j \<noteq> Status 200) \<and>
         t0 + sum_list (map (duration net url) [0..<Suc m]) +
           m * (case interval of None \<Rightarrow> 250 | Some i \<Rightarrow> i) \<le> t))"
proof (intro conjI impI)
  assume ready: "\<forall>url\<in>set urls. response net url (k url) = Status 200 \<and>
        (\<forall>j<k url. response net url j \<noteq> Status 200)"
  have eq: "map (check net n t0) urls =
        map (\<lambda>url. Some (True, t0 + sum_list (map (duration net url) [0..<Suc (k url)]) + k url * n))
          urls"
  proof (rule map_cong [OF refl])
    fix url assume "url \<in> set urls"
    with ready have "response net url (k url) = Status 200"
      "\<forall>j<k url. response net url j \<noteq> Status 200"
      by auto
    from check_ready [OF this] show "check net n t0 url =
      Some (True, t0 + sum_list (map (duration net url) [0..<Suc (k url)]) + k url * n)"
      by (simp add: poll_time_def)
  qed
  show "waitForUrls net urls (Some n) t0 =
        Some (replicate (length urls) True,
              Max (insert t0 ((\<lambda>url. t0 + sum_list (map (duration net url) [0..<Suc (k url)]) +
                                     k url * n) ` set urls)))"
    unfolding waitForUrls_def interval_of_def option.case eq by (rule promise_all_times)
next
  show "waitForUrls net urls None t0 = waitForUrls net urls (Some 250) t0"
    by (simp add: waitForUrls_def interval_of_def)
next
  assume "\<exists>url\<in>set urls. \<forall>j. response net url j \<noteq> Status 200"
  then obtain url where u: "url \<in> set urls" and "\<forall>j. response net url j \<noteq> Status 200"
    by blast
  then have "check net (interval_of interval) t0 url = None"
    by (simp add: check_never)
  with u have "None \<in> set (map (check net (interval_of interval) t0) urls)"
    by (metis image_eqI list.set_map)
  then show "waitForUrls net urls interval t0 = None"
    by (simp add: waitForUrls_def promise_all_None)
next
  assume res: "waitForUrls net urls interval t0 = Some (vs, t)"
  let ?i = "interval_of interval"
  let ?rs = "map (check net ?i t0) urls"
  from res have pa: "promise_all ?rs t0 = Some (vs, t)"
    by (simp add: waitForUrls_def)
  from promise_all_Some [OF pa] have
    each: "\<forall>n<length urls. \<exists>tv. ?rs ! n = Some (vs ! n, tv) \<and> tv \<le> t"
    by simp
  show "\<forall>url\<in>set urls. \<exists>m. response net url m = Status 200 \<and>
         (\<forall>j<m. response net url j \<noteq> Status 200) \<and>
         t0 + sum_list (map (duration net url) [0..<Suc m]) +
           m * (case interval of None \<Rightarrow> 250 | Some i \<Rightarrow> i) \<le> t"
  proof
    fix url assume "url \<in> set urls"
    then obtain n where n: "n < length urls" "urls ! n = url"
      by (auto simp: in_set_conv_nth)
    with each obtain tv where c: "check net ?i t0 url = Some (vs ! n, tv)" and le: "tv \<le> t"
      by auto
    from check_Some [OF c] obtain m where m: "response net url m = Status 200"
      "\<forall>j<m. response net url j \<noteq> Status 200"
      "(vs ! n, tv) = (True, poll_time net ?i t0 url m)"
      by blast
    from m(3) le have "poll_time net ?i t0 url m \<le> t" by simp
    then have "t0 + sum_list (map (duration net url) [0..<Suc m]) +
           m * (case interval of None \<Rightarrow> 250 | Some i \<Rightarrow> i) \<le> t"
      by (simp add: poll_time_def interval_of_def)
    with m(1,2) show "\<exists>m. response net url m = Status 200 \<and>
         (\<forall>j<m. response net url j \<noteq> Status 200) \<and>
         t0 + sum_list (map (duration net url) [0..<Suc m]) +
           m * (case interval of None \<Rightarrow> 250 | Some i \<Rightarrow> i) \<le> t"
      by blast
  qed
qed


lemma service_c_answers:
  "response service_c ''http://x/a'' j = Status 200"
  "response service_c ''http://x/c'' 0 = Transport_error"
  "response service_c ''http://x/c'' (Suc 0) = Status 503"
  "response service_c ''http://x/c'' 2 = Status 200"
  "response service_c ''http://x/down'' j = Transport_error"
  "duration service_c url = (\<lambda>j. 10)"
  by (simp_all add: service_c_def)

lemma service_ab_answers:
  "response service_ab ''http://x/a'' j = Status 200"
  "response service_ab ''http://x/b'' 0 = Status 500"
  "response service_ab ''http://x/b'' (Suc 0) = Status 200"
  "duration service_ab url = (\<lambda>j. 10)"
  by (simp_all add: service_ab_def)

lemma less_two: "j < 2 \<longleftrightarrow> j = 0 \<or> j = Suc 0" for j :: nat
  by auto

text \<open>
  With pauses of 100 ms, \<^verbatim>\<open>/c\<close> (a refused connection, a 503, then 200; 10 ms a request)
  is ready at 230 ms and so is the wait for \<^verbatim>\<open>/a\<close> and \<^verbatim>\<open>/c\<close>; with no interval given it is
  ready at 530 ms. The scenario of the specification, \<^verbatim>\<open>/a\<close> at once and \<^verbatim>\<open>/b\<close> after a 500,
  resolves at 270 ms. The wait for \<^verbatim>\<open>/a\<close> and \<^verbatim>\<open>/down\<close> never resolves.
\<close>

theorem waitForUrls_exact_witness:
  "waitForUrls service_c [''http://x/a'', ''http://x/c''] (Some 100) 0 = Some ([True, True], 230) \<and>
   waitForUrls service_c [''http://x/a'', ''http://x/c''] None 0 = Some ([True, True], 530) \<and>
   waitForUrls service_ab [''http://x/a'', ''http://x/b''] None 0 = Some ([True, True], 270) \<and>
   waitForUrls service_c [''http://x/a'', ''http://x/down''] (Some 100) 0 = None \<and>
   (\<exists>m. response service_c ''http://x/c'' m = Status 200 \<and>
        (\<forall>j<m. response service_c ''http://x/c'' j \<noteq> Status 200) \<and>
        0 + sum_list (map (duration service_c ''http://x/c'') [0..<Suc m]) + m * 100 \<le> 230)"
proof -
  let ?kc = "\<lambda>url. if url = ''http://x/c'' then 2 else (0::nat)"
  let ?kb = "\<lambda>url. if url = ''http://x/b'' then Suc 0 else (0::nat)"
  have ready_c: "\<forall>url\<in>set [''http://x/a'', ''http://x/c''].
      response service_c url (?kc url) = Status 200 \<and>
      (\<forall>j<?kc url. response service_c url j \<noteq> Status 200)"
    by (auto simp: service_c_answers less_two)
  have ready_b: "\<forall>url\<in>set [''http://x/a'', ''http://x/b''].
      response service_ab url (?kb url) = Status 200 \<and>
      (\<forall>j<?kb url. response service_ab url j \<noteq> Status 200)"
    by (auto simp: service_ab_answers)
  have a: "waitForUrls service_c [''http://x/a'', ''http://x/c''] (Some 100) 0 =
      Some ([True, True], 230)"
    using waitForUrls_exact [THEN conjunct1, THEN mp, OF ready_c, of 100 0]
    by (simp add: service_c_answers sum_list_triv)
  have b: "waitForUrls service_c [''http://x/a'', ''http://x/c''] (Some 250) 0 =
      Some ([True, True], 530)"
    using waitForUrls_exact [THEN conjunct1, THEN mp, OF ready_c, of 250 0]
    by (simp add: service_c_answers sum_list_triv)
  have b': "waitForUrls service_c [''http://x/a'', ''http://x/c''] None 0 =
      waitForUrls service_c [''http://x/a'', ''http://x/c''] (Some 250) 0"
    by (rule waitForUrls_exact [THEN conjunct2, THEN conjunct1])
  have c: "waitForUrls service_ab [''http://x/a'', ''http://x/b''] (Some 250) 0 =
      Some ([True, True], 270)"
    using waitForUrls_exact [THEN conjunct1, THEN mp, OF ready_b, of 250 0]
    by (simp add: service_ab_answers sum_list_triv)
  have c': "waitForUrls service_ab [''http://x/a'', ''http://x/b''] None 0 =
      waitForUrls service_ab [''http://x/a'', ''http://x/b''] (Some 250) 0"
    by (rule waitForUrls_exact [THEN conjunct2, THEN conjunct1])
  have down: "\<exists>url\<in>set [''http://x/a'', ''http://x/down''].
      \<forall>j. response service_c url j \<noteq> Status 200"
    by (simp add: service_c_answers)
  have d: "waitForUrls service_c [''http://x/a'', ''http://x/down''] (Some 100) 0 = None"
    by (rule waitForUrls_exact [THEN conjunct2, THEN conjunct2, THEN conjunct1, THEN mp, OF down])
  from waitForUrls_exact [THEN conjunct2, THEN conjunct2, THEN conjunct2, THEN mp, OF a]
  have e: "\<exists>m. response service_c ''http://x/c'' m = Status 200 \<and>
        (\<forall>j<m. response service_c ''http://x/c'' j \<noteq> Status 200) \<and>
        0 + sum_list (map (duration service_c ''http://x/c'') [0..<Suc m]) + m * 100 \<le> 230"
    by simp
  from a b b' c c' d e show ?thesis by simp
qed

section \<open>The supervisor's launch decision\<close>

text \<open>
  Claim C6, as amended. \<^verbatim>\<open>shouldInit\<close> is false exactly when the port is already in use
  and background-process mode is enabled; the caller has no other switch. No child is
  launched exactly when \<^verbatim>\<open>shouldInit\<close> is false or, in development mode, when the platform
  is neither macOS nor Windows; otherwise a launch is attempted.
\<close>

theorem shouldInit_exact:
  "(shouldInit bg port = False \<longleftrightarrow> bg \<and> port) \<and>
   (n8nProcess e = None \<longleftrightarrow>
      (bgEnabled e \<and> portInUse e) \<or>
      (isDev e \<and> os_platform e \<noteq> ''darwin'' \<and> os_platform e \<noteq> ''win32''))"
  by (auto simp: shouldInit_def n8nProcess_def Let_def)

theorem shouldInit_exact_witness:
  "shouldInit True True = False \<and>
   n8nProcess \<lparr>isDev = False, os_platform = ''darwin'', background_var = Some ''true'',
      offline_var = None, portInUse = True,
      n8nScriptPath = ''/app/node_modules/n8n/bin/n8n''\<rparr> = None"
  using shouldInit_exact [of True True
      "\<lparr>isDev = False, os_platform = ''darwin'', background_var = Some ''true'',
      offline_var = None, portInUse = True,
      n8nScriptPath = ''/app/node_modules/n8n/bin/n8n''\<rparr>"]
  by (simp add: bgEnabled_def)

text \<open>
  Claim C6 as stated fails: with the port in use and background-process mode disabled,
  where the claim has the launch skipped, \<^verbatim>\<open>shouldInit\<close> is true and the child is launched.
\<close>

theorem shouldInit_counterexample:
  "shouldInit False True = True \<and>
   bgEnabled \<lparr>isDev = False, os_platform = ''darwin'', background_var = None,
      offline_var = None, portInUse = True,
      n8nScriptPath = ''/app/node_modules/n8n/bin/n8n''\<rparr> = False \<and>
   n8nProcess \<lparr>isDev = False, os_platform = ''darwin'', background_var = None,
      offline_var = None, portInUse = True,
      n8nScriptPath = ''/app/node_modules/n8n/bin/n8n''\<rparr> =
     Some (Respawn [''/app/node_modules/n8n/bin/n8n''])"
  by (simp add: shouldInit_def n8nProcess_def bgEnabled_def offlineEnabled_def endsWith_def
      Let_def)

end
